theory Spec2Isabelle
  imports Complex_Main "HOL-Library.Word"
begin

section \<open>TimeMark editor: the script block of \<open>INDEX_HTML\<close> and the admin routes\<close>

text \<open>
  The repository is one file, \<open>src/timemarkapp.py\<close>: a Flask application whose editor
  page carries a JavaScript block (canvas sizing, date formatting, the text fitter, the
  blur mask, the two text clusters and the event listeners), and whose Python part holds
  the login and admin routes. Both are embedded here function by function.

  Conventions of the embedding:
  \<^item> a JavaScript string is a list of UTF-16 code units, so \<open>length\<close> is \<open>.length\<close>;
  \<^item> canvas and image dimensions are naturals (they are \<open>unsigned long\<close> in the DOM);
  \<^item> other JavaScript numbers are modelled exactly, as reals: \<open>Math.round x\<close> is
    \<open>\<lfloor>x + 1/2\<rfloor>\<close>; the rounding error of IEEE doubles is not modelled;
  \<^item> font sizes are integers: every call site passes the result of \<open>Math.round\<close>
    clamped between integer bounds, and the fitter only subtracts 1.
\<close>

subsection \<open>Strings\<close>

type_synonym jsstring = "16 word list"

text \<open>An ASCII literal as code units.\<close>

definition ascii :: "string \<Rightarrow> jsstring" where
  "ascii s = map of_char s"

definition hyphen :: "16 word" where "hyphen = 0x2D"
definition slash :: "16 word" where "slash = 0x2F"
definition zero_digit :: "16 word" where "zero_digit = 0x30"

definition is_digit :: "16 word \<Rightarrow> bool" where
  "is_digit c \<longleftrightarrow> 0x30 \<le> c \<and> c \<le> 0x39"

text \<open>
  \<open>s.split(sep)\<close> for a separator of one code unit: the pieces between the separators,
  so a string with \<open>n\<close> separators has \<open>n + 1\<close> pieces and \<open>"".split("-")\<close> is \<open>[""]\<close>.
\<close>

fun split_on :: "'a \<Rightarrow> 'a list \<Rightarrow> 'a list list" where
  "split_on sep [] = [ [] ]"
| "split_on sep (c # cs) =
     (if c = sep then [] # split_on sep cs
      else (case split_on sep cs of
              [] \<Rightarrow> [ [c] ]
            | p # ps \<Rightarrow> (c # p) # ps))"

text \<open>\<open>s.padStart(n, c)\<close> for a pad string of one code unit.\<close>

definition padStart :: "nat \<Rightarrow> 'a \<Rightarrow> 'a list \<Rightarrow> 'a list" where
  "padStart n c s = replicate (n - length s) c @ s"

text \<open>
  \<^verbatim>\<open>
  function formatDateDDMMYYYY(iso){
    if(!iso) return "";
    const parts = iso.split("-");
    if(parts.length !== 3) return "";
    const y = parts[0];
    const m = String(parts[1]).padStart(2,'0');
    const d = String(parts[2]).padStart(2,'0');
    return `${d}/${m}/${y}`;
  }
  \<close>
\<close>

definition formatDateDDMMYYYY :: "jsstring \<Rightarrow> jsstring" where
  "formatDateDDMMYYYY isoText =
     (if isoText = [] then []
      else (case split_on hyphen isoText of
              [y, m, d] \<Rightarrow>
                padStart 2 zero_digit d @ [slash] @ padStart 2 zero_digit m @ [slash] @ y
            | _ \<Rightarrow> []))"

subsection \<open>The text fitter\<close>

text \<open>
  A font is what the template functions build: \<open>`700 ${s}px "Roboto Condensed", ...`\<close>
  is weight 700 at \<open>s\<close> pixels; the family list is the same in every template.
  \<open>ctx.measureText(text).width\<close> under \<open>ctx.font = f\<close> is a capability of the browser
  and is a parameter of the model.
\<close>

datatype font = Font (weight: nat) (px: int)

type_synonym measure_fn = "font \<Rightarrow> jsstring \<Rightarrow> real"

text \<open>
  \<^verbatim>\<open>
  function fitFontToWidth(ctx, text, fontTemplateFn, startSize, minSize, maxWidth){
    let size = startSize;
    while(size > minSize){
      ctx.font = fontTemplateFn(size);
      if(ctx.measureText(text).width <= maxWidth) return size;
      size -= 1;
    }
    return minSize;
  }
  \<close>
  The loop variable \<open>size\<close> is the fourth argument, \<open>sz\<close>. The assignment to \<open>ctx.font\<close> is overwritten
  by every caller before the next measurement or drawing, so only the size is returned.
\<close>

function fitFontToWidth ::
  "measure_fn \<Rightarrow> jsstring \<Rightarrow> (int \<Rightarrow> font) \<Rightarrow> int \<Rightarrow> int \<Rightarrow> real \<Rightarrow> int" where
  "fitFontToWidth measureText text fontTemplateFn sz minSize maxWidth =
     (if sz > minSize then
        (if measureText (fontTemplateFn sz) text \<le> maxWidth then sz
         else fitFontToWidth measureText text fontTemplateFn (sz - 1) minSize maxWidth)
      else minSize)"
  by pat_completeness auto
termination
  by (relation "measure (\<lambda>(ms, t, f, sz, minSize, mw). nat (sz - minSize))") auto

declare fitFontToWidth.simps [simp del]

text \<open>A sample text measure for concrete evaluations: every glyph is half an em wide.\<close>

definition half_em :: measure_fn where
  "half_em f t = real (length t) * real_of_int (px f) / 2"

subsection \<open>Numbers\<close>

definition math_round :: "real \<Rightarrow> int" where
  "math_round x = \<lfloor>x + 1 / 2\<rfloor>"

text \<open>\<open>function clamp(n, lo, hi){ return Math.max(lo, Math.min(hi, n)); }\<close>\<close>

definition clamp :: "int \<Rightarrow> int \<Rightarrow> int \<Rightarrow> int" where
  "clamp n lo hi = max lo (min hi n)"

subsection \<open>Canvases\<close>

text \<open>
  A canvas bitmap: its dimensions and its pixels in row-major order. A bitmap is
  well formed when it has \<open>width * height\<close> pixels.
\<close>

record rgba =
  red :: "8 word"
  green :: "8 word"
  blue :: "8 word"
  alpha :: "8 word"

definition transparent :: rgba where
  "transparent = \<lparr>red = 0, green = 0, blue = 0, alpha = 0\<rparr>"

record raster =
  width :: nat
  height :: nat
  pixels :: "rgba list"

definition wf_raster :: "raster \<Rightarrow> bool" where
  "wf_raster r \<longleftrightarrow> length (pixels r) = width r * height r"

definition blank :: "nat \<Rightarrow> nat \<Rightarrow> raster" where
  "blank w h = \<lparr>width = w, height = h, pixels = replicate (w * h) transparent\<rparr>"

text \<open>
  Assigning \<open>canvas.width\<close> or \<open>canvas.height\<close> replaces the bitmap by a transparent
  one of the new dimensions (the HTML canvas behaviour the source relies on).
\<close>

definition set_width :: "nat \<Rightarrow> raster \<Rightarrow> raster" where
  "set_width w r = blank w (height r)"

definition set_height :: "nat \<Rightarrow> raster \<Rightarrow> raster" where
  "set_height h r = blank (width r) h"

text \<open>\<open>ctx.clearRect(x, y, w, h)\<close>: the pixels inside the rectangle become transparent.\<close>

definition clearRect :: "nat \<Rightarrow> nat \<Rightarrow> nat \<Rightarrow> nat \<Rightarrow> raster \<Rightarrow> raster" where
  "clearRect x y w h r =
     r\<lparr>pixels :=
         map (\<lambda>i. if x \<le> i mod width r \<and> i mod width r < x + w
                        \<and> y \<le> i div width r \<and> i div width r < y + h
                   then transparent else pixels r ! i)
             [0 ..< length (pixels r)]\<rparr>"

text \<open>
  \<open>ctx.getImageData(0, 0, width, height).data\<close>: four bytes per pixel, alpha last.
  The call throws \<open>IndexSizeError\<close> when the width or the height is zero.
\<close>

datatype fault = IndexSizeError | ValueError

definition imageData :: "raster \<Rightarrow> 8 word list" where
  "imageData r = concat (map (\<lambda>p. [red p, green p, blue p, alpha p]) (pixels r))"

definition getImageData :: "raster \<Rightarrow> fault + 8 word list" where
  "getImageData r =
     (if width r = 0 \<or> height r = 0 then Inl IndexSizeError else Inr (imageData r))"

subsection \<open>The editor's state\<close>

text \<open>
  The globals of the script (\<open>img\<close>, \<open>hasImage\<close>, \<open>originalBitmap\<close>, \<open>maskEnabled\<close>,
  \<open>isPainting\<close>), the two canvases, and the form controls the script reads. The decoded
  image is a bitmap whose dimensions are \<open>naturalWidth\<close> and \<open>naturalHeight\<close>. The status
  line is one of the messages \<open>setStatus\<close> is called with.
\<close>

datatype status =
  Ready | ImageSize nat nat | OverlayDone | ResetDone | UndoDone

record app_state =
  cv :: raster
  maskCanvas :: raster
  img :: raster
  hasImage :: bool
  originalBitmap :: "8 word list option"
  maskEnabled :: bool
  isPainting :: bool
  statusEl :: status
  time_value :: jsstring
  date_value :: jsstring
  dow_value :: jsstring
  brush_value :: nat

definition MAX_DIM :: nat where
  "MAX_DIM = 2500"

text \<open>
  \<^verbatim>\<open>
  function fitCanvasToImage(w,h){
    const MAX_DIM = 2500;
    if (w > MAX_DIM || h > MAX_DIM) {
        const ratio = Math.min(MAX_DIM/w, MAX_DIM/h);
        w = Math.round(w * ratio);
        h = Math.round(h * ratio);
    }
    cv.width = w; cv.height = h;
    maskCanvas.width = w; maskCanvas.height = h;
    maskCtx.clearRect(0,0,w,h);
  }
  \<close>
  In JavaScript \<open>MAX_DIM/0\<close> is \<open>Infinity\<close> and \<open>Math.min\<close> then returns its other
  argument; HOL's \<open>x / 0\<close> is \<open>0\<close>, so the two cases are written out. Inside the
  branch one of the dimensions exceeds \<open>MAX_DIM\<close>, so they are not both zero.
\<close>

definition cap_ratio :: "nat \<Rightarrow> nat \<Rightarrow> real" where
  "cap_ratio w h =
     (if w = 0 then real MAX_DIM / real h
      else if h = 0 then real MAX_DIM / real w
      else min (real MAX_DIM / real w) (real MAX_DIM / real h))"

definition capped_dims :: "nat \<Rightarrow> nat \<Rightarrow> nat \<times> nat" where
  "capped_dims w h =
     (if w > MAX_DIM \<or> h > MAX_DIM then
        (let ratio = cap_ratio w h
         in (nat (math_round (real w * ratio)), nat (math_round (real h * ratio))))
      else (w, h))"

definition fitCanvasToImage :: "nat \<Rightarrow> nat \<Rightarrow> app_state \<Rightarrow> app_state" where
  "fitCanvasToImage w0 h0 st =
     (let (w, h) = capped_dims w0 h0
      in st\<lparr>cv := set_height h (set_width w (cv st)),
            maskCanvas := clearRect 0 0 w h (set_height h (set_width w (maskCanvas st)))\<rparr>)"

text \<open>A state for concrete evaluations: the page as loaded, both canvases at the default
  300 by 150, no image.\<close>

definition initial_state :: app_state where
  "initial_state =
     \<lparr>cv = blank 300 150, maskCanvas = blank 300 150, img = blank 0 0, hasImage = False,
      originalBitmap = None, maskEnabled = False, isPainting = False, statusEl = Ready,
      time_value = ascii ''05:37'', date_value = [],
      dow_value = [0x54, 0x68, 0x1EE9, 0x20, 0x4E, 0x103, 0x6D], brush_value = 55\<rparr>"

subsection \<open>Drawing commands and the browser\<close>

text \<open>
  What the script asks the 2D context to draw is recorded as a list of commands: a
  \<open>fillText\<close> with the context attributes in force, or the stroke of the vertical divider.
  How the browser turns a command into pixels, how it measures text, how it resamples
  and composites bitmaps and how it encodes a PNG are not in the repository; they are
  the fields of a \<open>browser\<close>, a parameter of everything that draws.
\<close>

datatype text_align = AlignLeft | AlignCenter

datatype text_baseline = Alphabetic | Bottom

record text_cmd =
  t_text :: jsstring
  t_font :: font
  t_x :: real
  t_y :: real
  t_align :: text_align
  t_baseline :: text_baseline
  t_fillStyle :: string
  t_scaleY :: real
  t_shadowColor :: string
  t_shadowBlur :: int
  t_shadowOffsetY :: int

record line_cmd =
  l_x :: real
  l_top :: int
  l_bottom :: int
  l_lineWidth :: int
  l_strokeStyle :: string

datatype draw_cmd = FillText text_cmd | StrokeLine line_cmd

datatype composite_op = SourceOver | DestinationIn

record browser =
  measureText :: measure_fn
  scaled :: "raster \<Rightarrow> nat \<Rightarrow> nat \<Rightarrow> nat \<Rightarrow> nat \<Rightarrow> rgba list"
  composite :: "composite_op \<Rightarrow> rgba \<Rightarrow> rgba \<Rightarrow> rgba"
  fillArc :: "real \<Rightarrow> real \<Rightarrow> real \<Rightarrow> raster \<Rightarrow> raster"
  rasterize :: "draw_cmd \<Rightarrow> raster \<Rightarrow> raster"
  toDataURL :: "raster \<Rightarrow> 8 word list"

text \<open>
  The rightmost x-coordinate a command covers, taking the measured width as the extent
  of a text: a left-aligned text runs from \<open>x\<close> to \<open>x + width\<close>, a centred one ends at
  \<open>x + width / 2\<close>, a vertical stroke of width \<open>lw\<close> ends at \<open>x + lw / 2\<close>.
\<close>

fun right_edge :: "measure_fn \<Rightarrow> draw_cmd \<Rightarrow> real" where
  "right_edge ms (FillText c) =
     (case t_align c of
        AlignLeft \<Rightarrow> t_x c + ms (t_font c) (t_text c)
      | AlignCenter \<Rightarrow> t_x c + ms (t_font c) (t_text c) / 2)"
| "right_edge ms (StrokeLine c) = l_x c + real_of_int (l_lineWidth c) / 2"

text \<open>The text a command draws, if it draws one.\<close>

fun cmd_text :: "draw_cmd \<Rightarrow> jsstring option" where
  "cmd_text (FillText c) = Some (t_text c)"
| "cmd_text (StrokeLine c) = None"

subsection \<open>The watermark cluster\<close>

text \<open>
  \<open>drawWatermark(ctx, W, H)\<close>, lines 603 to 661 of the source: the three texts it draws
  and the span it returns,
  \<open>padR + Math.round(wmWidth) + clamp(Math.round(W*0.03), 12, 40)\<close>.
  The first assignment to \<open>subFont\<close> is dead (it is recomputed after the fit).
\<close>

definition wmTpl :: "int \<Rightarrow> font" where "wmTpl s = Font 700 s"
definition subTpl :: "int \<Rightarrow> font" where "subTpl s = Font 700 s"

definition timePart :: jsstring where "timePart = ascii ''Time''"
definition markPart :: jsstring where "markPart = ascii ''mark''"
definition fullText :: jsstring where "fullText = timePart @ markPart"

definition subText :: jsstring where
  "subText = ascii ''100% Ch'' @ [0xE2] @ ascii ''n th'' @ [0x1EF1] @ ascii ''c''"

definition padR :: "nat \<Rightarrow> int" where
  "padR W = clamp (math_round (real W * 0.02)) 10 40"

definition padB :: "nat \<Rightarrow> int" where
  "padB H = clamp (math_round (real H * 0.03)) 10 60"

definition wmFont :: "browser \<Rightarrow> nat \<Rightarrow> nat \<Rightarrow> int" where
  "wmFont B W H =
     fitFontToWidth (measureText B) fullText wmTpl
       (clamp (math_round (real (min W H) * 0.050)) 16 44) 12
       (real_of_int (math_round (real W * 0.35)))"

definition subFont :: "browser \<Rightarrow> nat \<Rightarrow> nat \<Rightarrow> int" where
  "subFont B W H = clamp (math_round (real_of_int (wmFont B W H) * 0.55)) 10 24"

definition wmWidth :: "browser \<Rightarrow> nat \<Rightarrow> nat \<Rightarrow> real" where
  "wmWidth B W H = measureText B (wmTpl (wmFont B W H)) fullText"

definition reservedRightSpan :: "browser \<Rightarrow> nat \<Rightarrow> nat \<Rightarrow> int" where
  "reservedRightSpan B W H =
     padR W + math_round (wmWidth B W H) + clamp (math_round (real W * 0.03)) 12 40"

definition drawWatermark :: "browser \<Rightarrow> nat \<Rightarrow> nat \<Rightarrow> draw_cmd list \<times> int" where
  "drawWatermark B W H =
     (let BASE = min W H;
          timeW = measureText B (wmTpl (wmFont B W H)) timePart;
          startX = real W - real_of_int (padR W) - wmWidth B W H;
          centerX = startX + wmWidth B W H / 2;
          yBottom = int H - padB H;
          yTop = yBottom - math_round (real_of_int (subFont B W H) * 1.15);
          sBlur = math_round (real BASE * 0.004);
          sOffY = math_round (real BASE * 0.001)
      in ([FillText \<lparr>t_text = subText, t_font = subTpl (subFont B W H), t_x = centerX,
                      t_y = real_of_int yBottom, t_align = AlignCenter, t_baseline = Bottom,
                      t_fillStyle = ''#E6E6E6'', t_scaleY = 1,
                      t_shadowColor = ''rgba(0,0,0,0.22)'', t_shadowBlur = sBlur,
                      t_shadowOffsetY = sOffY\<rparr>,
           FillText \<lparr>t_text = timePart, t_font = wmTpl (wmFont B W H), t_x = startX,
                      t_y = real_of_int yTop, t_align = AlignLeft, t_baseline = Bottom,
                      t_fillStyle = ''#F2B644'', t_scaleY = 1,
                      t_shadowColor = ''rgba(0,0,0,0.22)'', t_shadowBlur = sBlur,
                      t_shadowOffsetY = sOffY\<rparr>,
           FillText \<lparr>t_text = markPart, t_font = wmTpl (wmFont B W H), t_x = startX + timeW,
                      t_y = real_of_int yTop, t_align = AlignLeft, t_baseline = Bottom,
                      t_fillStyle = ''#FFFFFF'', t_scaleY = 1,
                      t_shadowColor = ''rgba(0,0,0,0.22)'', t_shadowBlur = sBlur,
                      t_shadowOffsetY = sOffY\<rparr>],
          reservedRightSpan B W H))"

subsection \<open>The left info cluster\<close>

text \<open>
  \<open>drawLeftCluster(ctx, W, H, reservedRight, timeVal, dateText, dowText)\<close>, lines 483 to
  600 of the source. Each \<open>const\<close> of the function that the layout depends on is a
  definition of the same name, with the arguments it depends on; \<open>drawLeftCluster\<close>
  lists the six things drawn, in the order of the source.
\<close>

definition addr1 :: jsstring where
  "addr1 = ascii ''268B V'' @ [0xF5] @ ascii '' Nguy'' @ [0xEA] @ ascii ''n Gi'' @ [0xE1]
           @ ascii ''p, B'' @ [0x1EAF] @ ascii ''c M'' @ [0x1EF9] @ ascii '' Ph'' @ [0xFA]
           @ ascii '', Ng'' @ [0x169]"

definition addr2 :: jsstring where
  "addr2 = ascii ''H'' @ [0xE0] @ ascii ''nh S'' @ [0x1A1] @ ascii ''n, '' @ [0x110, 0xE0]
           @ ascii '' N'' @ [0x1EB5] @ ascii ''ng 550000''"

definition addrTpl :: "int \<Rightarrow> font" where "addrTpl s = Font 400 s"
definition timeTpl :: "int \<Rightarrow> font" where "timeTpl s = Font 700 s"
definition metaTpl :: "int \<Rightarrow> font" where "metaTpl s = Font 400 s"

definition leftMaxWidth :: "nat \<Rightarrow> int" where
  "leftMaxWidth W = math_round (real W * 0.60)"

definition leftX :: "nat \<Rightarrow> int" where
  "leftX W = clamp (math_round (real W * 0.03)) 10 42"

definition bottomPad :: "nat \<Rightarrow> int" where
  "bottomPad H = clamp (math_round (real H * 0.04)) 10 70"

definition rightLimit :: "nat \<Rightarrow> int \<Rightarrow> int" where
  "rightLimit W reservedRight = min (leftX W + leftMaxWidth W) (int W - reservedRight)"

definition maxWidth :: "nat \<Rightarrow> int \<Rightarrow> int" where
  "maxWidth W reservedRight = max 150 (rightLimit W reservedRight - leftX W)"

definition addrFont :: "browser \<Rightarrow> nat \<Rightarrow> nat \<Rightarrow> int \<Rightarrow> int" where
  "addrFont B W H reservedRight =
     fitFontToWidth (measureText B) addr1 addrTpl
       (clamp (math_round (real (min W H) * 0.040)) 12 34) 10
       (real_of_int (maxWidth W reservedRight))"

definition addrLineH :: "browser \<Rightarrow> nat \<Rightarrow> nat \<Rightarrow> int \<Rightarrow> int" where
  "addrLineH B W H reservedRight =
     math_round (real_of_int (addrFont B W H reservedRight) * 1.18)"

definition gapMetaToAddr :: "nat \<Rightarrow> nat \<Rightarrow> int" where
  "gapMetaToAddr W H = clamp (math_round (real (min W H) * 0.030)) 10 36"

definition minMetaW :: "nat \<Rightarrow> int \<Rightarrow> int" where
  "minMetaW W reservedRight = math_round (real_of_int (maxWidth W reservedRight) * 0.34)"

definition maxTimeW :: "nat \<Rightarrow> int \<Rightarrow> int" where
  "maxTimeW W reservedRight = max 80 (maxWidth W reservedRight - minMetaW W reservedRight)"

definition timeFont :: "browser \<Rightarrow> nat \<Rightarrow> nat \<Rightarrow> int \<Rightarrow> jsstring \<Rightarrow> int" where
  "timeFont B W H reservedRight timeVal =
     fitFontToWidth (measureText B) timeVal timeTpl
       (clamp (math_round (real (min W H) * 0.085)) 28 82) 18
       (real_of_int (maxTimeW W reservedRight))"

definition timeScaleY :: real where "timeScaleY = 1.50"

definition addrBottomY :: "nat \<Rightarrow> int" where
  "addrBottomY H = int H - bottomPad H"

definition timeBaselineY :: "browser \<Rightarrow> nat \<Rightarrow> nat \<Rightarrow> int \<Rightarrow> int" where
  "timeBaselineY B W H reservedRight =
     addrBottomY H - addrLineH B W H reservedRight * 2 - gapMetaToAddr W H"

definition timeW :: "browser \<Rightarrow> nat \<Rightarrow> nat \<Rightarrow> int \<Rightarrow> jsstring \<Rightarrow> real" where
  "timeW B W H reservedRight timeVal =
     measureText B (timeTpl (timeFont B W H reservedRight timeVal)) timeVal"

definition gapX :: "nat \<Rightarrow> nat \<Rightarrow> int" where
  "gapX W H = clamp (math_round (real (min W H) * 0.018)) 8 22"

definition lineX :: "browser \<Rightarrow> nat \<Rightarrow> nat \<Rightarrow> int \<Rightarrow> jsstring \<Rightarrow> real" where
  "lineX B W H reservedRight timeVal =
     real_of_int (leftX W) + timeW B W H reservedRight timeVal + real_of_int (gapX W H)"

definition lineTop :: "browser \<Rightarrow> nat \<Rightarrow> nat \<Rightarrow> int \<Rightarrow> jsstring \<Rightarrow> int" where
  "lineTop B W H reservedRight timeVal =
     timeBaselineY B W H reservedRight
       - math_round (real_of_int (timeFont B W H reservedRight timeVal) * 0.80 * timeScaleY)"

definition lineBottom :: "browser \<Rightarrow> nat \<Rightarrow> nat \<Rightarrow> int \<Rightarrow> jsstring \<Rightarrow> int" where
  "lineBottom B W H reservedRight timeVal =
     timeBaselineY B W H reservedRight
       + math_round (real_of_int (timeFont B W H reservedRight timeVal) * 0.10 * timeScaleY)"

definition metaX :: "browser \<Rightarrow> nat \<Rightarrow> nat \<Rightarrow> int \<Rightarrow> jsstring \<Rightarrow> real" where
  "metaX B W H reservedRight timeVal =
     lineX B W H reservedRight timeVal + real_of_int (gapX W H)"

definition metaMaxW :: "browser \<Rightarrow> nat \<Rightarrow> nat \<Rightarrow> int \<Rightarrow> jsstring \<Rightarrow> real" where
  "metaMaxW B W H reservedRight timeVal =
     max 80 (real_of_int (rightLimit W reservedRight) - metaX B W H reservedRight timeVal)"

definition longer :: "jsstring \<Rightarrow> jsstring \<Rightarrow> jsstring" where
  "longer dateText dowText = (if length dateText \<ge> length dowText then dateText else dowText)"

definition metaFont ::
  "browser \<Rightarrow> nat \<Rightarrow> nat \<Rightarrow> int \<Rightarrow> jsstring \<Rightarrow> jsstring \<Rightarrow> jsstring \<Rightarrow> int" where
  "metaFont B W H reservedRight timeVal dateText dowText =
     fitFontToWidth (measureText B) (longer dateText dowText) metaTpl
       (clamp (math_round (real_of_int (timeFont B W H reservedRight timeVal) * 0.40)) 10 36) 10
       (metaMaxW B W H reservedRight timeVal)"

definition dividerWidth :: "nat \<Rightarrow> nat \<Rightarrow> int" where
  "dividerWidth W H = max 2 (math_round (real (min W H) * 0.004))"

definition drawLeftCluster ::
  "browser \<Rightarrow> nat \<Rightarrow> nat \<Rightarrow> int \<Rightarrow> jsstring \<Rightarrow> jsstring \<Rightarrow> jsstring \<Rightarrow> draw_cmd list" where
  "drawLeftCluster B W H reservedRight timeVal dateText dowText =
     (let BASE = min W H;
          sBlur = math_round (real BASE * 0.004);
          sOffY = math_round (real BASE * 0.001);
          mFont = metaFont B W H reservedRight timeVal dateText dowText;
          metaPad = math_round (real_of_int mFont * 0.12);
          dateY = lineTop B W H reservedRight timeVal + mFont + metaPad;
          dowY = lineBottom B W H reservedRight timeVal - metaPad
      in [FillText \<lparr>t_text = timeVal, t_font = timeTpl (timeFont B W H reservedRight timeVal),
                     t_x = real_of_int (leftX W),
                     t_y = real_of_int (timeBaselineY B W H reservedRight) / timeScaleY,
                     t_align = AlignLeft, t_baseline = Alphabetic, t_fillStyle = ''#FFFFFF'',
                     t_scaleY = timeScaleY, t_shadowColor = ''rgba(0,0,0,0.25)'',
                     t_shadowBlur = sBlur, t_shadowOffsetY = sOffY\<rparr>,
          StrokeLine \<lparr>l_x = lineX B W H reservedRight timeVal,
                       l_top = lineTop B W H reservedRight timeVal,
                       l_bottom = lineBottom B W H reservedRight timeVal,
                       l_lineWidth = dividerWidth W H, l_strokeStyle = ''#F2B644''\<rparr>,
          FillText \<lparr>t_text = dateText, t_font = metaTpl mFont,
                     t_x = metaX B W H reservedRight timeVal, t_y = real_of_int dateY,
                     t_align = AlignLeft, t_baseline = Alphabetic, t_fillStyle = ''#FFFFFF'',
                     t_scaleY = 1, t_shadowColor = ''rgba(0,0,0,0.25)'',
                     t_shadowBlur = sBlur, t_shadowOffsetY = sOffY\<rparr>,
          FillText \<lparr>t_text = dowText, t_font = metaTpl mFont,
                     t_x = metaX B W H reservedRight timeVal, t_y = real_of_int dowY,
                     t_align = AlignLeft, t_baseline = Alphabetic, t_fillStyle = ''#FFFFFF'',
                     t_scaleY = 1, t_shadowColor = ''rgba(0,0,0,0.25)'',
                     t_shadowBlur = sBlur, t_shadowOffsetY = sOffY\<rparr>,
          FillText \<lparr>t_text = addr2, t_font = addrTpl (addrFont B W H reservedRight),
                     t_x = real_of_int (leftX W), t_y = real_of_int (addrBottomY H),
                     t_align = AlignLeft, t_baseline = Bottom, t_fillStyle = ''#FFFFFF'',
                     t_scaleY = 1, t_shadowColor = ''rgba(0,0,0,0.25)'',
                     t_shadowBlur = sBlur, t_shadowOffsetY = sOffY\<rparr>,
          FillText \<lparr>t_text = addr1, t_font = addrTpl (addrFont B W H reservedRight),
                     t_x = real_of_int (leftX W),
                     t_y = real_of_int (addrBottomY H - addrLineH B W H reservedRight),
                     t_align = AlignLeft, t_baseline = Bottom, t_fillStyle = ''#FFFFFF'',
                     t_scaleY = 1, t_shadowColor = ''rgba(0,0,0,0.25)'',
                     t_shadowBlur = sBlur, t_shadowOffsetY = sOffY\<rparr>])"

subsection \<open>The mask and the base layer\<close>

text \<open>
  \<^verbatim>\<open>
  function maskHasSomething(){
    const w = maskCanvas.width, h = maskCanvas.height;
    if(!w || !h) return false;
    const d = maskCtx.getImageData(0,0,w,h).data;
    for(let i=3;i<d.length;i+=4){
      if(d[i] > 0) return true;
    }
    return false;
  }
  \<close>
  The guard on \<open>w\<close> and \<open>h\<close> excludes the case in which \<open>getImageData\<close> throws, so the
  loop runs on \<open>imageData\<close>.
\<close>

function alphaScan :: "8 word list \<Rightarrow> nat \<Rightarrow> bool" where
  "alphaScan d i =
     (if i < length d then (if d ! i > 0 then True else alphaScan d (i + 4)) else False)"
  by pat_completeness auto
termination
  by (relation "measure (\<lambda>(d, i). length d - i)") auto

declare alphaScan.simps [simp del]

definition maskHasSomething :: "raster \<Rightarrow> bool" where
  "maskHasSomething m =
     (if width m = 0 \<or> height m = 0 then False else alphaScan (imageData m) 3)"

text \<open>
  \<open>ctx.drawImage(src, 0, 0, sw, sh, 0, 0, dst.width, dst.height)\<close>: the source rectangle
  resampled by the browser to the whole destination and composited pixel by pixel.
\<close>

definition drawImageScaled ::
  "browser \<Rightarrow> composite_op \<Rightarrow> raster \<Rightarrow> nat \<Rightarrow> nat \<Rightarrow> raster \<Rightarrow> raster" where
  "drawImageScaled B op src sw sh dst =
     dst\<lparr>pixels :=
           map (\<lambda>i. composite B op (scaled B src sw sh (width dst) (height dst) ! i)
                       (pixels dst ! i))
               [0 ..< length (pixels dst)]\<rparr>"

text \<open>
  \<open>ctx.drawImage(src, 0, 0)\<close>: the source unscaled at the origin. Where the source does
  not reach, the source pixel is transparent.
\<close>

definition pixel_at :: "raster \<Rightarrow> nat \<Rightarrow> nat \<Rightarrow> rgba" where
  "pixel_at r x y =
     (if x < width r \<and> y < height r \<and> y * width r + x < length (pixels r)
      then pixels r ! (y * width r + x) else transparent)"

definition drawImage :: "browser \<Rightarrow> composite_op \<Rightarrow> raster \<Rightarrow> raster \<Rightarrow> raster" where
  "drawImage B op src dst =
     dst\<lparr>pixels :=
           map (\<lambda>i. composite B op (pixel_at src (i mod width dst) (i div width dst))
                       (pixels dst ! i))
               [0 ..< length (pixels dst)]\<rparr>"

text \<open>
  \<^verbatim>\<open>
  function drawBase(){
    ctx.clearRect(0,0,cv.width,cv.height);
    ctx.drawImage(img, 0, 0, cv.width, cv.height);
    if(maskHasSomething()){
      const w = cv.width, h = cv.height;
      const small = document.createElement("canvas");
      const scale = 0.15;
      small.width = Math.max(1, Math.floor(w*scale));
      small.height = Math.max(1, Math.floor(h*scale));
      const sctx = small.getContext("2d");
      sctx.imageSmoothingEnabled = true;
      sctx.drawImage(img,0,0,cv.width,cv.height,0,0,small.width,small.height);
      const blur = document.createElement("canvas");
      blur.width = w; blur.height = h;
      const bctx = blur.getContext("2d");
      bctx.imageSmoothingEnabled = true;
      bctx.drawImage(small,0,0,small.width,small.height,0,0,w,h);
      bctx.globalCompositeOperation = "destination-in";
      bctx.drawImage(maskCanvas,0,0);
      ctx.drawImage(blur,0,0);
    }
  }
  \<close>
\<close>

definition sharpBase :: "browser \<Rightarrow> app_state \<Rightarrow> raster" where
  "sharpBase B st =
     drawImageScaled B SourceOver (img st) (width (img st)) (height (img st))
       (clearRect 0 0 (width (cv st)) (height (cv st)) (cv st))"

definition blurLayer :: "browser \<Rightarrow> app_state \<Rightarrow> raster" where
  "blurLayer B st =
     (let w = width (cv st); h = height (cv st);
          small0 = blank (max 1 (nat \<lfloor>real w * 0.15\<rfloor>)) (max 1 (nat \<lfloor>real h * 0.15\<rfloor>));
          small = drawImageScaled B SourceOver (img st) w h small0;
          blur = drawImageScaled B SourceOver small (width small) (height small) (blank w h)
      in drawImage B DestinationIn (maskCanvas st) blur)"

definition drawBase :: "browser \<Rightarrow> app_state \<Rightarrow> app_state" where
  "drawBase B st =
     (if maskHasSomething (maskCanvas st)
      then st\<lparr>cv := drawImage B SourceOver (blurLayer B st) (sharpBase B st)\<rparr>
      else st\<lparr>cv := sharpBase B st\<rparr>)"

subsection \<open>The render\<close>

text \<open>\<open>a || b\<close> on strings: the empty string is falsy.\<close>

definition js_or :: "jsstring \<Rightarrow> jsstring \<Rightarrow> jsstring" where
  "js_or a b = (if a = [] then b else a)"

definition fallbackTime :: jsstring where "fallbackTime = ascii ''05:37''"
definition fallbackDate :: jsstring where "fallbackDate = ascii ''05/01/2026''"

definition fallbackDow :: jsstring where
  "fallbackDow = ascii ''Th'' @ [0x1EE9] @ ascii '' N'' @ [0x103] @ ascii ''m''"

text \<open>
  \<^verbatim>\<open>
  function drawAllOverlay(){
    if(!hasImage) return;
    drawBase();
    const W = cv.width, H = cv.height;
    const timeVal = $("time").value || "05:37";
    const dateText = formatDateDDMMYYYY($("date").value) || "05/01/2026";
    const dowText  = $("dow").value || <fallbackDow>;
    const reservedRight = drawWatermark(ctx, W, H);
    drawLeftCluster(ctx, W, H, reservedRight, timeVal, dateText, dowText);
  }
  \<close>
  \<open>overlayCommands\<close> is what the last five lines draw, in order; \<open>drawAllOverlay\<close>
  rasterizes it over the base layer.
\<close>

definition overlayCommands :: "browser \<Rightarrow> app_state \<Rightarrow> draw_cmd list" where
  "overlayCommands B st =
     (let W = width (cv st); H = height (cv st);
          timeVal = js_or (time_value st) fallbackTime;
          dateText = js_or (formatDateDDMMYYYY (date_value st)) fallbackDate;
          dowText = js_or (dow_value st) fallbackDow;
          (wm, reservedRight) = drawWatermark B W H
      in wm @ drawLeftCluster B W H reservedRight timeVal dateText dowText)"

definition drawAllOverlay :: "browser \<Rightarrow> app_state \<Rightarrow> app_state" where
  "drawAllOverlay B st =
     (if \<not> hasImage st then st
      else (let st1 = drawBase B st
            in st1\<lparr>cv := fold (rasterize B) (overlayCommands B st1) (cv st1)\<rparr>))"

subsection \<open>The event listeners\<close>

text \<open>
  A listener returns what the user or the caller gets besides the new state: nothing,
  an \<open>alert\<close>, the download of the encoded canvas, or an uncaught exception.
\<close>

datatype effect = NoEffect | Alert jsstring | Download "8 word list" | Thrown fault

definition noImageMsg :: jsstring where
  "noImageMsg = ascii ''B'' @ [0x1EA1] @ ascii ''n ch'' @ [0x1B0] @ ascii ''a ch'' @ [0x1ECD]
                @ ascii ''n '' @ [0x1EA3] @ ascii ''nh.''"

text \<open>
  The \<open>onload\<close> handler of \<open>loadImageFromUrl\<close>, lines 679 to 700, for the decoded image
  and the current date as \<open>YYYY-MM-DD\<close>. \<open>getImageData\<close> throws on an empty canvas; the
  assignments before it have happened by then.
\<close>

definition loadImage :: "browser \<Rightarrow> raster \<Rightarrow> jsstring \<Rightarrow> app_state \<Rightarrow> effect \<times> app_state" where
  "loadImage B decoded today st =
     (let st1 = fitCanvasToImage (width decoded) (height decoded) (st\<lparr>img := decoded\<rparr>);
          st2 = st1\<lparr>hasImage := True\<rparr>;
          st3 = st2\<lparr>cv := drawImageScaled B SourceOver decoded (width decoded) (height decoded)
                              (cv st2)\<rparr>
      in (case getImageData (cv st3) of
            Inl f \<Rightarrow> (Thrown f, st3)
          | Inr d \<Rightarrow>
              (NoEffect,
               st3\<lparr>originalBitmap := Some d,
                    date_value := (if date_value st3 = [] then today else date_value st3),
                    statusEl := ImageSize (width (cv st3)) (height (cv st3))\<rparr>)))"

text \<open>
  \<^verbatim>\<open>
  $("render").addEventListener("click", ()=>{
    if(!hasImage) return alert(<noImageMsg>);
    drawAllOverlay();
    setStatus(...);
  });
  \<close>
\<close>

definition render_click :: "browser \<Rightarrow> app_state \<Rightarrow> effect \<times> app_state" where
  "render_click B st =
     (if \<not> hasImage st then (Alert noImageMsg, st)
      else (NoEffect, (drawAllOverlay B st)\<lparr>statusEl := OverlayDone\<rparr>))"

text \<open>
  \<^verbatim>\<open>
  $("reset").addEventListener("click", ()=>{
    if(!hasImage) return;
    fitCanvasToImage(img.naturalWidth, img.naturalHeight);
    ctx.drawImage(img, 0, 0, cv.width, cv.height);
    originalBitmap = ctx.getImageData(0,0,cv.width,cv.height);
    maskCtx.clearRect(0,0,maskCanvas.width,maskCanvas.height);
    setStatus(...);
  });
  \<close>
\<close>

definition reset_click :: "browser \<Rightarrow> app_state \<Rightarrow> effect \<times> app_state" where
  "reset_click B st =
     (if \<not> hasImage st then (NoEffect, st)
      else (let st1 = fitCanvasToImage (width (img st)) (height (img st)) st;
                st2 = st1\<lparr>cv := drawImageScaled B SourceOver (img st1) (width (img st1))
                                    (height (img st1)) (cv st1)\<rparr>
            in (case getImageData (cv st2) of
                  Inl f \<Rightarrow> (Thrown f, st2)
                | Inr d \<Rightarrow>
                    (NoEffect,
                     st2\<lparr>originalBitmap := Some d,
                          maskCanvas := clearRect 0 0 (width (maskCanvas st2))
                                          (height (maskCanvas st2)) (maskCanvas st2),
                          statusEl := ResetDone\<rparr>))))"

text \<open>
  \<^verbatim>\<open>
  $("download").addEventListener("click", ()=>{
    if(!hasImage) return alert(<noImageMsg>);
    const a = document.createElement("a");
    a.download = "timemark_export.png";
    a.href = cv.toDataURL("image/png");
    a.click();
  });
  \<close>
\<close>

definition download_click :: "browser \<Rightarrow> app_state \<Rightarrow> effect \<times> app_state" where
  "download_click B st =
     (if \<not> hasImage st then (Alert noImageMsg, st)
      else (Download (toDataURL B (cv st)), st))"

definition toggleMask_click :: "app_state \<Rightarrow> effect \<times> app_state" where
  "toggleMask_click st = (NoEffect, st\<lparr>maskEnabled := \<not> maskEnabled st\<rparr>)"

text \<open>
  \<^verbatim>\<open>
  $("clearMask").addEventListener("click", ()=>{
    if(!hasImage) return;
    maskCtx.clearRect(0,0,maskCanvas.width,maskCanvas.height);
    drawBase();
    setStatus(...);
  });
  \<close>
\<close>

definition clearMask_click :: "browser \<Rightarrow> app_state \<Rightarrow> effect \<times> app_state" where
  "clearMask_click B st =
     (if \<not> hasImage st then (NoEffect, st)
      else (NoEffect,
            (drawBase B
               (st\<lparr>maskCanvas := clearRect 0 0 (width (maskCanvas st))
                                    (height (maskCanvas st)) (maskCanvas st)\<rparr>))
            \<lparr>statusEl := UndoDone\<rparr>))"

text \<open>
  A mouse or touch event: the pointer's client coordinates (of the first touch for a
  touch event) and the canvas's bounding rectangle when the event fires.
  \<^verbatim>\<open>
  function paint(e){
    if(!maskEnabled || !hasImage || !isPainting) return;
    e.preventDefault();
    const p = getPos(e);
    const size = parseInt($("brush").value,10);
    maskCtx.save();
    maskCtx.fillStyle = "rgba(255,255,255,0.95)";
    maskCtx.beginPath();
    maskCtx.arc(p.x,p.y,size/2,0,Math.PI*2);
    maskCtx.fill();
    maskCtx.restore();
    drawBase();
  }
  \<close>
  \<open>getPos\<close> multiplies by \<open>cv.width / rect.width\<close>; with a bounding rectangle of zero
  width or height the coordinates are not finite, \<open>arc\<close> ignores them and nothing is
  filled.
\<close>

record pointer_event =
  clientX :: real
  clientY :: real
  rect_left :: real
  rect_top :: real
  rect_width :: real
  rect_height :: real

definition getPos :: "pointer_event \<Rightarrow> app_state \<Rightarrow> real \<times> real" where
  "getPos e st =
     ((clientX e - rect_left e) * (real (width (cv st)) / rect_width e),
      (clientY e - rect_top e) * (real (height (cv st)) / rect_height e))"

definition paint :: "browser \<Rightarrow> pointer_event \<Rightarrow> app_state \<Rightarrow> effect \<times> app_state" where
  "paint B e st =
     (if \<not> maskEnabled st \<or> \<not> hasImage st \<or> \<not> isPainting st then (NoEffect, st)
      else (let (x, y) = getPos e st;
                m = (if rect_width e = 0 \<or> rect_height e = 0 then maskCanvas st
                     else fillArc B x y (real (brush_value st) / 2) (maskCanvas st))
            in (NoEffect, drawBase B (st\<lparr>maskCanvas := m\<rparr>))))"

text \<open>
  \<open>cv.addEventListener("mousedown", (e)=>{ isPainting=true; paint(e); })\<close>, the same for
  \<open>touchstart\<close>; \<open>mousemove\<close> and \<open>touchmove\<close> are \<open>paint\<close>; \<open>mouseup\<close> and \<open>touchend\<close>
  clear \<open>isPainting\<close>.
\<close>

definition mousedown :: "browser \<Rightarrow> pointer_event \<Rightarrow> app_state \<Rightarrow> effect \<times> app_state" where
  "mousedown B e st = paint B e (st\<lparr>isPainting := True\<rparr>)"

definition mouseup :: "app_state \<Rightarrow> effect \<times> app_state" where
  "mouseup st = (NoEffect, st\<lparr>isPainting := False\<rparr>)"

subsection \<open>A sample browser and sample states\<close>

text \<open>
  For concrete evaluations: text half an em per glyph, nearest-neighbour resampling,
  compositing that looks at the source's alpha only, a brush that fills the pixels whose
  centre lies in the disc, a text rasterizer that marks the first pixel, and the raw
  bytes as the encoding.
\<close>

definition brushPixel :: rgba where
  "brushPixel = \<lparr>red = 255, green = 255, blue = 255, alpha = 242\<rparr>"

definition sample_browser :: browser where
  "sample_browser =
     \<lparr>measureText = half_em,
      scaled = (\<lambda>src sw sh dw dh.
                  map (\<lambda>i. pixel_at src ((i mod dw) * sw div dw) ((i div dw) * sh div dh))
                      [0 ..< dw * dh]),
      composite = (\<lambda>op s d. case op of
                      SourceOver \<Rightarrow> (if alpha s = 0 then d else s)
                    | DestinationIn \<Rightarrow> (if alpha s = 0 then transparent else d)),
      fillArc = (\<lambda>x y r m.
                  m\<lparr>pixels :=
                      map (\<lambda>i. if (real (i mod width m) + 1 / 2 - x)\<^sup>2
                                    + (real (i div width m) + 1 / 2 - y)\<^sup>2 \<le> r\<^sup>2
                                then brushPixel else pixels m ! i)
                          [0 ..< length (pixels m)]\<rparr>),
      rasterize = (\<lambda>c r. r\<lparr>pixels := (case pixels r of
                                          [] \<Rightarrow> []
                                        | p # ps \<Rightarrow> brushPixel # ps)\<rparr>),
      toDataURL = imageData\<rparr>"

definition grey :: "8 word \<Rightarrow> rgba" where
  "grey v = \<lparr>red = v, green = v, blue = v, alpha = 255\<rparr>"

definition sample_image :: raster where
  "sample_image = \<lparr>width = 2, height = 1, pixels = [grey 10, grey 200]\<rparr>"

text \<open>The sample image loaded, the brush switched on, and the left pixel painted.\<close>

definition loaded_state :: app_state where
  "loaded_state =
     initial_state\<lparr>cv := sample_image, maskCanvas := blank 2 1, img := sample_image,
                    hasImage := True, maskEnabled := True\<rparr>"

definition painted_state :: app_state where
  "painted_state =
     loaded_state\<lparr>maskCanvas := \<lparr>width = 2, height = 1, pixels = [brushPixel, transparent]\<rparr>\<rparr>"

definition sample_event :: pointer_event where
  "sample_event =
     \<lparr>clientX = 5, clientY = 5, rect_left = 0, rect_top = 0, rect_width = 20, rect_height = 10\<rparr>"

subsection \<open>The admin route that deletes a user\<close>

text \<open>
  The Python side. The \<open>users\<close> table is a list of rows; \<open>username\<close> is declared
  \<open>UNIQUE\<close>, which is the predicate \<open>unique_usernames\<close>. The Flask session holds the
  keys \<open>uid\<close>, \<open>username\<close> and \<open>role\<close>, or nothing after \<open>session.clear()\<close>. A Python
  string is a list of characters; \<open>int(uid)\<close> is a parameter, \<open>None\<close> standing for the
  \<open>ValueError\<close> it raises on text that is not a number.
\<close>

record user_row =
  row_id :: int
  username :: string
  password_hash :: string
  role :: string

type_synonym users_table = "user_row list"

definition unique_usernames :: "users_table \<Rightarrow> bool" where
  "unique_usernames db \<longleftrightarrow> distinct (map username db)"

record session =
  s_uid :: "int option"
  s_username :: "string option"
  s_role :: "string option"

definition session_clear :: session where
  "session_clear = \<lparr>s_uid = None, s_username = None, s_role = None\<rparr>"

record delete_form =
  f_username :: "string option"
  f_uid :: "string option"

datatype response = Redirect string | Forbidden | ServerError fault

text \<open>\<open>str.strip()\<close>, for code points below 256: the characters Python counts as space.\<close>

definition py_isspace :: "char \<Rightarrow> bool" where
  "py_isspace c \<longleftrightarrow>
     (let n = (of_char c :: nat)
      in (9 \<le> n \<and> n \<le> 13) \<or> (28 \<le> n \<and> n \<le> 32) \<or> n = 133 \<or> n = 160)"

definition strip :: "string \<Rightarrow> string" where
  "strip s = rev (dropWhile py_isspace (rev (dropWhile py_isspace s)))"

text \<open>The three statements the route runs.\<close>

definition select_role :: "users_table \<Rightarrow> string \<Rightarrow> string option" where
  "select_role db name = map_option role (find (\<lambda>u. username u = name) db)"

definition count_admins :: "users_table \<Rightarrow> nat" where
  "count_admins db = length (filter (\<lambda>u. role u = ''admin'') db)"

definition delete_by_username :: "users_table \<Rightarrow> string \<Rightarrow> users_table" where
  "delete_by_username db name = filter (\<lambda>u. username u \<noteq> name) db"

text \<open>
  \<^verbatim>\<open>
  @app.post("/admin/delete_user")
  @admin_required
  def admin_delete_user():
      username = (request.form.get("username") or "").strip()
      uid = request.form.get("uid")
      if not username: return redirect("/admin")
      db = get_db()
      target = db.execute("SELECT role FROM users WHERE username=?", (username,)).fetchone()
      if target and target["role"] == "admin":
          admins = db.execute("SELECT COUNT(*) AS c FROM users WHERE role='admin'").fetchone()["c"]
          if admins <= 1: return redirect("/admin")
      db.execute("DELETE FROM users WHERE username=?", (username,))
      db.commit()
      if uid and session.get("uid") == int(uid):
          session.clear()
          return redirect("/login")
      return redirect("/admin")
  \<close>
  \<open>admin_required\<close> redirects to the login page when the session has no \<open>uid\<close> and
  answers 403 when the session's role is not \<open>admin\<close>. The \<open>DELETE\<close> is committed before
  \<open>int(uid)\<close> is evaluated, so a \<open>ValueError\<close> leaves the row deleted.
\<close>

definition admin_delete_user ::
  "(string \<Rightarrow> int option) \<Rightarrow> delete_form \<Rightarrow> users_table \<Rightarrow> session
     \<Rightarrow> response \<times> users_table \<times> session" where
  "admin_delete_user py_int form db sess =
     (if s_uid sess = None then (Redirect ''/login?next=/admin/delete_user'', db, sess)
      else if s_role sess \<noteq> Some ''admin'' then (Forbidden, db, sess)
      else
        (let name = strip (case f_username form of None \<Rightarrow> [] | Some s \<Rightarrow> s);
             uid = f_uid form
         in if name = [] then (Redirect ''/admin'', db, sess)
            else if select_role db name = Some ''admin'' \<and> count_admins db \<le> 1
              then (Redirect ''/admin'', db, sess)
            else
              (let db' = delete_by_username db name
               in (case uid of
                     None \<Rightarrow> (Redirect ''/admin'', db', sess)
                   | Some u \<Rightarrow>
                       if u = [] then (Redirect ''/admin'', db', sess)
                       else (case py_int u of
                               None \<Rightarrow> (ServerError ValueError, db', sess)
                             | Some n \<Rightarrow>
                                 if s_uid sess = Some n
                                 then (Redirect ''/login'', db', session_clear)
                                 else (Redirect ''/admin'', db', sess))))))"

text \<open>For concrete evaluations: \<open>int\<close> on plain decimal digits, and a table with two
  admins and a user.\<close>

definition decimal :: "string \<Rightarrow> int option" where
  "decimal s =
     (if s \<noteq> [] \<and> list_all (\<lambda>c. 48 \<le> (of_char c :: nat) \<and> (of_char c :: nat) \<le> 57) s
      then Some (foldl (\<lambda>n c. 10 * n + (int (of_char c) - 48)) 0 s) else None)"

definition sample_users :: users_table where
  "sample_users =
     [\<lparr>row_id = 1, username = ''admin'', password_hash = ''h1'', role = ''admin''\<rparr>,
      \<lparr>row_id = 2, username = ''user'', password_hash = ''h2'', role = ''user''\<rparr>,
      \<lparr>row_id = 3, username = ''root'', password_hash = ''h3'', role = ''admin''\<rparr>]"

definition admin_session :: session where
  "admin_session = \<lparr>s_uid = Some 1, s_username = Some ''admin'', s_role = Some ''admin''\<rparr>"

subsection \<open>Events and reachable states\<close>

text \<open>
  The listeners the script registers, as one dispatcher: an image finishing to load
  (from the file input or from a camera capture), the clicks, the pointer events (mouse
  or touch), and the user editing a form control. A state is reachable when some
  sequence of events leads to it from the page as loaded.
\<close>

datatype event =
    ImageLoaded raster jsstring
  | RenderClick | ResetClick | DownloadClick | ToggleMaskClick | ClearMaskClick
  | MouseDown pointer_event | MouseMove pointer_event | MouseUp
  | EditTime jsstring | EditDate jsstring | EditDow jsstring | EditBrush nat

fun dispatch :: "browser \<Rightarrow> event \<Rightarrow> app_state \<Rightarrow> effect \<times> app_state" where
  "dispatch B (ImageLoaded decoded today) st = loadImage B decoded today st"
| "dispatch B RenderClick st = render_click B st"
| "dispatch B ResetClick st = reset_click B st"
| "dispatch B DownloadClick st = download_click B st"
| "dispatch B ToggleMaskClick st = toggleMask_click st"
| "dispatch B ClearMaskClick st = clearMask_click B st"
| "dispatch B (MouseDown e) st = mousedown B e st"
| "dispatch B (MouseMove e) st = paint B e st"
| "dispatch B MouseUp st = mouseup st"
| "dispatch B (EditTime v) st = (NoEffect, st\<lparr>time_value := v\<rparr>)"
| "dispatch B (EditDate v) st = (NoEffect, st\<lparr>date_value := v\<rparr>)"
| "dispatch B (EditDow v) st = (NoEffect, st\<lparr>dow_value := v\<rparr>)"
| "dispatch B (EditBrush n) st = (NoEffect, st\<lparr>brush_value := n\<rparr>)"

inductive reachable :: "browser \<Rightarrow> app_state \<Rightarrow> bool" for B :: browser where
  init: "reachable B initial_state"
| step: "reachable B st \<Longrightarrow> reachable B (snd (dispatch B ev st))"

text \<open>
  What the model asks of the browser's own drawing: filling an arc and drawing a text
  or a line change pixels, not the bitmap's dimensions. \<open>canvases_ok\<close> is the invariant
  of the two canvases: both well formed, and the mask as large as the canvas.
\<close>

definition keeps_dims :: "(raster \<Rightarrow> raster) \<Rightarrow> bool" where
  "keeps_dims f \<longleftrightarrow>
     (\<forall>r. width (f r) = width r \<and> height (f r) = height r
          \<and> length (pixels (f r)) = length (pixels r))"

definition browser_ok :: "browser \<Rightarrow> bool" where
  "browser_ok B \<longleftrightarrow>
     (\<forall>x y r. keeps_dims (fillArc B x y r)) \<and> (\<forall>c. keeps_dims (rasterize B c))"

definition canvases_ok :: "app_state \<Rightarrow> bool" where
  "canvases_ok st \<longleftrightarrow>
     wf_raster (cv st) \<and> wf_raster (maskCanvas st)
     \<and> width (maskCanvas st) = width (cv st) \<and> height (maskCanvas st) = height (cv st)"

text \<open>The state after loading the sample image, switching the brush on and pressing the
  pointer on the canvas.\<close>

definition events_painted :: app_state where
  "events_painted =
     snd (dispatch sample_browser (MouseDown sample_event)
       (snd (dispatch sample_browser ToggleMaskClick
         (snd (dispatch sample_browser (ImageLoaded sample_image (ascii ''2026-11-04''))
            initial_state)))))"




text \<open>The sample image loaded with an untouched mask, over a canvas that still shows
  something else.\<close>

definition dirty_state :: app_state where
  "dirty_state =
     loaded_state\<lparr>cv := \<lparr>width = 2, height = 1, pixels = [brushPixel, grey 77]\<rparr>\<rparr>"

text \<open>The state after loading the sample image and nothing else: its mask was never
  touched.\<close>

definition events_loaded :: app_state where
  "events_loaded =
     snd (dispatch sample_browser (ImageLoaded sample_image (ascii ''2026-11-04''))
            initial_state)"

subsection \<open>Helper lemmas: strings\<close>

lemma split_on_nonempty: "split_on sep s \<noteq> []"
  by (induction s) (auto split: list.splits)

lemma length_split_on: "length (split_on sep s) = count_list s sep + 1"
proof (induction s)
  case Nil
  show ?case by simp
next
  case (Cons c cs)
  then show ?case
    using split_on_nonempty [of sep cs]
    by (cases "split_on sep cs") auto
qed

lemma split_on_no_sep: "sep \<notin> set s \<Longrightarrow> split_on sep s = [s]"
  by (induction s) auto

lemma split_on_append:
  "sep \<notin> set a \<Longrightarrow> split_on sep (a @ sep # b) = a # split_on sep b"
  by (induction a) auto

lemma digit_not_hyphen: "is_digit c \<Longrightarrow> c \<noteq> hyphen"
  by (auto simp: is_digit_def hyphen_def)

lemma digits_no_hyphen: "list_all is_digit s \<Longrightarrow> hyphen \<notin> set s"
  using digit_not_hyphen by (auto simp: list_all_iff)

lemma formatDate_parts:
  assumes "hyphen \<notin> set y" "hyphen \<notin> set m" "hyphen \<notin> set d"
  shows "formatDateDDMMYYYY (y @ hyphen # m @ hyphen # d) =
           padStart 2 zero_digit d @ slash # padStart 2 zero_digit m @ slash # y"
proof -
  have "split_on hyphen (y @ hyphen # m @ hyphen # d) = [y, m, d]"
    using assms by (simp add: split_on_append split_on_no_sep)
  then show ?thesis
    by (simp add: formatDateDDMMYYYY_def)
qed

lemma formatDate_wrong_count:
  assumes "count_list isoText hyphen \<noteq> 2"
  shows "formatDateDDMMYYYY isoText = []"
proof -
  have "length (split_on hyphen isoText) \<noteq> 3"
    using assms by (simp add: length_split_on)
  then show ?thesis
    by (auto simp: formatDateDDMMYYYY_def split: list.splits)
qed

subsection \<open>Helper lemmas: the fitter\<close>

lemma fit_ge_min:
  "minSize \<le> sz \<Longrightarrow> minSize \<le> fitFontToWidth ms t f sz minSize mw"
proof (induction ms t f sz minSize mw rule: fitFontToWidth.induct)
  case (1 ms t f sz minSize mw)
  then show ?case
    by (subst fitFontToWidth.simps) auto
qed

lemma fit_le_start:
  "minSize \<le> sz \<Longrightarrow> fitFontToWidth ms t f sz minSize mw \<le> sz"
proof (induction ms t f sz minSize mw rule: fitFontToWidth.induct)
  case (1 ms t f sz minSize mw)
  show ?case
  proof (cases "sz > minSize \<and> \<not> ms (f sz) t \<le> mw")
    case True
    then have "fitFontToWidth ms t f (sz - 1) minSize mw \<le> sz - 1"
      using "1.IH" by simp
    with True show ?thesis
      by (subst fitFontToWidth.simps) simp
  next
    case False
    with "1.prems" show ?thesis
      by (subst fitFontToWidth.simps) auto
  qed
qed

lemma fit_mono:
  "mw \<le> mw' \<Longrightarrow>
     fitFontToWidth ms t f sz minSize mw \<le> fitFontToWidth ms t f sz minSize mw'"
proof (induction ms t f sz minSize mw arbitrary: mw' rule: fitFontToWidth.induct)
  case (1 ms t f sz minSize mw)
  show ?case
  proof (cases "sz > minSize")
    case False
    then show ?thesis
      by (simp add: fitFontToWidth.simps [of ms t f sz])
  next
    case above: True
    show ?thesis
    proof (cases "ms (f sz) t \<le> mw")
      case True
      with above "1.prems" show ?thesis
        by (simp add: fitFontToWidth.simps [of ms t f sz])
    next
      case nofit: False
      have rec: "fitFontToWidth ms t f (sz - 1) minSize mw
                   \<le> fitFontToWidth ms t f (sz - 1) minSize mw'"
        using "1.IH" above nofit "1.prems" by simp
      have "fitFontToWidth ms t f (sz - 1) minSize mw \<le> sz"
      proof (cases "minSize \<le> sz - 1")
        case True
        then show ?thesis using fit_le_start [of minSize "sz - 1" ms t f mw] by simp
      next
        case False
        then show ?thesis using above
          by (simp add: fitFontToWidth.simps [of ms t f "sz - 1"])
      qed
      with above nofit rec show ?thesis
        by (simp add: fitFontToWidth.simps [of ms t f sz])
    qed
  qed
qed

lemma fit_fits_or_min:
  "fitFontToWidth ms t f sz minSize mw = minSize
     \<or> ms (f (fitFontToWidth ms t f sz minSize mw)) t \<le> mw"
proof (induction ms t f sz minSize mw rule: fitFontToWidth.induct)
  case (1 ms t f sz minSize mw)
  then show ?case
    by (subst (1 2) fitFontToWidth.simps) auto
qed

subsection \<open>Helper lemmas: canvas sizing\<close>

lemma math_round_of_nat: "math_round (real n) = int n"
  by (simp add: math_round_def)

lemma math_round_close: "\<bar>real_of_int (math_round x) - x\<bar> \<le> 1 / 2"
  unfolding math_round_def by linarith

lemma math_round_mono: "x \<le> y \<Longrightarrow> math_round x \<le> math_round y"
  unfolding math_round_def by (simp add: floor_mono)

lemma math_round_nonneg: "0 \<le> x \<Longrightarrow> 0 \<le> math_round x"
  unfolding math_round_def by simp

lemma capped_dims_wide:
  assumes "w > MAX_DIM" "h \<le> w"
  shows "fst (capped_dims w h) = MAX_DIM"
    and "snd (capped_dims w h) \<le> MAX_DIM"
    and "\<bar>real (snd (capped_dims w h)) - real h * real MAX_DIM / real w\<bar> \<le> 1 / 2"
proof -
  have wpos: "0 < real w" using assms by simp
  have ratio: "cap_ratio w h = real MAX_DIM / real w"
  proof (cases "h = 0")
    case True
    then show ?thesis using assms by (simp add: cap_ratio_def)
  next
    case False
    then have "real MAX_DIM / real w \<le> real MAX_DIM / real h"
      using assms by (simp add: frac_le)
    then show ?thesis using False assms by (simp add: cap_ratio_def)
  qed
  have wr: "real w * cap_ratio w h = real MAX_DIM"
    using wpos by (simp add: ratio)
  have hr: "real h * cap_ratio w h = real h * real MAX_DIM / real w"
    by (simp add: ratio)
  show "fst (capped_dims w h) = MAX_DIM"
    using assms by (simp add: capped_dims_def Let_def wr math_round_of_nat)
  have le: "real h * real MAX_DIM / real w \<le> real MAX_DIM"
    using assms wpos by (simp add: field_simps mult_left_mono)
  have nonneg: "0 \<le> real h * real MAX_DIM / real w"
    by simp
  have "math_round (real h * real MAX_DIM / real w) \<le> math_round (real MAX_DIM)"
    using le by (rule math_round_mono)
  then have "math_round (real h * real MAX_DIM / real w) \<le> int MAX_DIM"
    by (simp add: math_round_of_nat)
  then show "snd (capped_dims w h) \<le> MAX_DIM"
    using assms by (simp add: capped_dims_def Let_def hr)
  have "0 \<le> math_round (real h * real MAX_DIM / real w)"
    using nonneg by (rule math_round_nonneg)
  then have "real (nat (math_round (real h * real MAX_DIM / real w)))
               = real_of_int (math_round (real h * real MAX_DIM / real w))"
    by simp
  then show "\<bar>real (snd (capped_dims w h)) - real h * real MAX_DIM / real w\<bar> \<le> 1 / 2"
    using assms math_round_close [of "real h * real MAX_DIM / real w"]
    by (simp add: capped_dims_def Let_def hr)
qed

lemma capped_dims_tall:
  assumes "h > MAX_DIM" "w \<le> h"
  shows "snd (capped_dims w h) = MAX_DIM"
    and "fst (capped_dims w h) \<le> MAX_DIM"
    and "\<bar>real (fst (capped_dims w h)) - real w * real MAX_DIM / real h\<bar> \<le> 1 / 2"
proof -
  have hpos: "0 < real h" using assms by simp
  have ratio: "cap_ratio w h = real MAX_DIM / real h"
  proof (cases "w = 0")
    case True
    then show ?thesis by (simp add: cap_ratio_def)
  next
    case False
    then have "real MAX_DIM / real h \<le> real MAX_DIM / real w"
      using assms by (simp add: frac_le)
    then show ?thesis using False assms by (simp add: cap_ratio_def)
  qed
  have hr: "real h * cap_ratio w h = real MAX_DIM"
    using hpos by (simp add: ratio)
  have wr: "real w * cap_ratio w h = real w * real MAX_DIM / real h"
    by (simp add: ratio)
  show "snd (capped_dims w h) = MAX_DIM"
    using assms by (simp add: capped_dims_def Let_def hr math_round_of_nat)
  have le: "real w * real MAX_DIM / real h \<le> real MAX_DIM"
    using assms hpos by (simp add: field_simps mult_left_mono)
  have nonneg: "0 \<le> real w * real MAX_DIM / real h"
    by simp
  have "math_round (real w * real MAX_DIM / real h) \<le> math_round (real MAX_DIM)"
    using le by (rule math_round_mono)
  then have "math_round (real w * real MAX_DIM / real h) \<le> int MAX_DIM"
    by (simp add: math_round_of_nat)
  then show "fst (capped_dims w h) \<le> MAX_DIM"
    using assms by (simp add: capped_dims_def Let_def wr)
  have "0 \<le> math_round (real w * real MAX_DIM / real h)"
    using nonneg by (rule math_round_nonneg)
  then have "real (nat (math_round (real w * real MAX_DIM / real h)))
               = real_of_int (math_round (real w * real MAX_DIM / real h))"
    by simp
  then show "\<bar>real (fst (capped_dims w h)) - real w * real MAX_DIM / real h\<bar> \<le> 1 / 2"
    using assms math_round_close [of "real w * real MAX_DIM / real h"]
    by (simp add: capped_dims_def Let_def wr)
qed

lemma capped_dims_small:
  "w \<le> MAX_DIM \<Longrightarrow> h \<le> MAX_DIM \<Longrightarrow> capped_dims w h = (w, h)"
  by (simp add: capped_dims_def)

lemma fitCanvasToImage_cv:
  "width (cv (fitCanvasToImage w h st)) = fst (capped_dims w h)"
  "height (cv (fitCanvasToImage w h st)) = snd (capped_dims w h)"
  by (simp_all add: fitCanvasToImage_def set_width_def set_height_def blank_def
      split: prod.splits)

subsection \<open>Helper lemmas: the mask and the base layer\<close>

lemma alphaScan_shift:
  "alphaScan (pre @ d) (i + length pre) = alphaScan d i"
proof (induction d i rule: alphaScan.induct)
  case (1 d i)
  show ?case
  proof (cases "i < length d")
    case False
    then show ?thesis
      by (simp add: alphaScan.simps [of d i] alphaScan.simps [of "pre @ d" "i + length pre"])
  next
    case inr: True
    show ?thesis
    proof (cases "d ! i > 0")
      case True
      with inr show ?thesis
        by (simp add: alphaScan.simps [of d i] alphaScan.simps [of "pre @ d" "i + length pre"]
            nth_append)
    next
      case False
      have "alphaScan (pre @ d) (i + length pre + 4) = alphaScan d (i + 4)"
        using "1.IH" [OF inr False] by (simp add: ac_simps)
      then show ?thesis
        using inr False
        by (simp add: alphaScan.simps [of d i] alphaScan.simps [of "pre @ d" "i + length pre"]
            nth_append)
    qed
  qed
qed

lemma alphaScan_pixels:
  "alphaScan (concat (map (\<lambda>p. [red p, green p, blue p, alpha p]) ps)) 3
     \<longleftrightarrow> (\<exists>p \<in> set ps. alpha p > 0)"
proof (induction ps)
  case Nil
  show ?case by (simp add: alphaScan.simps)
next
  case (Cons p ps)
  let ?rest = "concat (map (\<lambda>p. [red p, green p, blue p, alpha p]) ps)"
  have "alphaScan ([red p, green p, blue p, alpha p] @ ?rest)
          (3 + length [red p, green p, blue p, alpha p]) = alphaScan ?rest 3"
    by (rule alphaScan_shift)
  then have step: "alphaScan (red p # green p # blue p # alpha p # ?rest) 7 = alphaScan ?rest 3"
    by simp
  have "alphaScan (red p # green p # blue p # alpha p # ?rest) 3
          = (alpha p > 0 \<or> alphaScan (red p # green p # blue p # alpha p # ?rest) 7)"
    by (subst alphaScan.simps) (simp add: numeral_3_eq_3)
  with step Cons show ?case by simp
qed

lemma maskHasSomething_iff:
  "maskHasSomething m \<longleftrightarrow>
     width m \<noteq> 0 \<and> height m \<noteq> 0 \<and> (\<exists>p \<in> set (pixels m). alpha p > 0)"
  by (simp add: maskHasSomething_def imageData_def alphaScan_pixels)

lemma clearRect_all:
  assumes "wf_raster r"
  shows "clearRect 0 0 (width r) (height r) r
           = r\<lparr>pixels := replicate (width r * height r) transparent\<rparr>"
proof -
  have "map (\<lambda>i. if 0 \<le> i mod width r \<and> i mod width r < 0 + width r
                        \<and> 0 \<le> i div width r \<and> i div width r < 0 + height r
                   then transparent else pixels r ! i) [0 ..< length (pixels r)]
          = replicate (width r * height r) transparent"
  proof (rule nth_equalityI)
    show "length (map (\<lambda>i. if 0 \<le> i mod width r \<and> i mod width r < 0 + width r
                        \<and> 0 \<le> i div width r \<and> i div width r < 0 + height r
                   then transparent else pixels r ! i) [0 ..< length (pixels r)])
            = length (replicate (width r * height r) transparent)"
      using assms by (simp add: wf_raster_def)
  next
    fix i
    assume "i < length (map (\<lambda>i. if 0 \<le> i mod width r \<and> i mod width r < 0 + width r
                        \<and> 0 \<le> i div width r \<and> i div width r < 0 + height r
                   then transparent else pixels r ! i) [0 ..< length (pixels r)])"
    then have i: "i < width r * height r"
      using assms by (simp add: wf_raster_def)
    then have "0 < width r" by (cases "width r") auto
    moreover have "i div width r < height r"
      using i by (simp add: less_mult_imp_div_less mult.commute)
    ultimately show "map (\<lambda>i. if 0 \<le> i mod width r \<and> i mod width r < 0 + width r
                        \<and> 0 \<le> i div width r \<and> i div width r < 0 + height r
                   then transparent else pixels r ! i) [0 ..< length (pixels r)] ! i
            = replicate (width r * height r) transparent ! i"
      using i assms by (simp add: wf_raster_def)
  qed
  then show ?thesis
    by (simp add: clearRect_def)
qed

lemma wf_blank: "wf_raster (blank w h)"
  by (simp add: wf_raster_def blank_def)

lemma blank_sel [simp]:
  "width (blank w h) = w" "height (blank w h) = h"
  "pixels (blank w h) = replicate (w * h) transparent"
  by (simp_all add: blank_def)

lemma clearRect_blank: "clearRect 0 0 w h (blank w h) = blank w h"
  using clearRect_all [OF wf_blank, of w h] by (simp add: blank_def)

lemma clearRect_full:
  "wf_raster r \<Longrightarrow> clearRect 0 0 (width r) (height r) r = blank (width r) (height r)"
  by (simp add: clearRect_all blank_def)

lemma fitCanvasToImage_other [simp]:
  "img (fitCanvasToImage w h st) = img st"
  "hasImage (fitCanvasToImage w h st) = hasImage st"
  by (simp_all add: fitCanvasToImage_def split: prod.splits)

lemma drawImageScaled_dims [simp]:
  "width (drawImageScaled B op src sw sh dst) = width dst"
  "height (drawImageScaled B op src sw sh dst) = height dst"
  "length (pixels (drawImageScaled B op src sw sh dst)) = length (pixels dst)"
  by (simp_all add: drawImageScaled_def)

lemma drawImage_dims [simp]:
  "width (drawImage B op src dst) = width dst"
  "height (drawImage B op src dst) = height dst"
  "length (pixels (drawImage B op src dst)) = length (pixels dst)"
  by (simp_all add: drawImage_def)

lemma clearRect_dims [simp]:
  "width (clearRect x y w h r) = width r"
  "height (clearRect x y w h r) = height r"
  "length (pixels (clearRect x y w h r)) = length (pixels r)"
  by (simp_all add: clearRect_def)

lemma sharpBase_dims [simp]:
  "width (sharpBase B st) = width (cv st)"
  "height (sharpBase B st) = height (cv st)"
  "length (pixels (sharpBase B st)) = length (pixels (cv st))"
  by (simp_all add: sharpBase_def)

text \<open>The base layer depends on the canvas only through its dimensions.\<close>

lemma sharpBase_cong:
  assumes "wf_raster (cv st)" "wf_raster (cv st')"
    and "width (cv st') = width (cv st)" "height (cv st') = height (cv st)"
    and "img st' = img st"
  shows "sharpBase B st' = sharpBase B st"
proof -
  have "clearRect 0 0 (width (cv st')) (height (cv st')) (cv st')
          = clearRect 0 0 (width (cv st)) (height (cv st)) (cv st)"
    using assms clearRect_full [of "cv st"] clearRect_full [of "cv st'"] by simp
  then show ?thesis
    using assms by (simp add: sharpBase_def)
qed


lemma fitCanvasToImage_mask:
  "maskCanvas (fitCanvasToImage w h st)
     = blank (width (cv (fitCanvasToImage w h st))) (height (cv (fitCanvasToImage w h st)))"
  by (simp add: fitCanvasToImage_def set_width_def set_height_def clearRect_blank
      split: prod.splits)


lemma wf_sharpBase: "wf_raster (cv st) \<Longrightarrow> wf_raster (sharpBase B st)"
  by (simp add: wf_raster_def)

lemma drawBase_clear:
  "\<not> maskHasSomething (maskCanvas st) \<Longrightarrow> drawBase B st = st\<lparr>cv := sharpBase B st\<rparr>"
  by (simp add: drawBase_def)

lemma not_has_blank: "\<not> maskHasSomething (blank w h)"
  by (simp add: maskHasSomething_iff transparent_def)

subsection \<open>Helper lemmas: the listeners\<close>

lemma getImageData_cases:
  "getImageData r = Inl IndexSizeError \<or> getImageData r = Inr (imageData r)"
  by (simp add: getImageData_def)

lemma loadImage_mask:
  "maskCanvas (snd (loadImage B decoded today st))
     = blank (width (cv (snd (loadImage B decoded today st))))
             (height (cv (snd (loadImage B decoded today st))))"
  using getImageData_cases
    [of "drawImageScaled B SourceOver decoded (width decoded) (height decoded)
           (cv (fitCanvasToImage (width decoded) (height decoded) (st\<lparr>img := decoded\<rparr>)))"]
  by (auto simp: loadImage_def Let_def fitCanvasToImage_mask)

lemma reset_mask:
  assumes "hasImage st"
  shows "maskCanvas (snd (reset_click B st))
     = blank (width (cv (snd (reset_click B st)))) (height (cv (snd (reset_click B st))))"
  using assms getImageData_cases
    [of "drawImageScaled B SourceOver (img st) (width (img st)) (height (img st))
           (cv (fitCanvasToImage (width (img st)) (height (img st)) st))"]
  by (auto simp: reset_click_def Let_def fitCanvasToImage_mask clearRect_blank)

lemma reset_cv_dims:
  assumes "hasImage st"
  shows "width (cv (snd (reset_click B st))) = fst (capped_dims (width (img st)) (height (img st)))"
    and "height (cv (snd (reset_click B st))) = snd (capped_dims (width (img st)) (height (img st)))"
  using assms getImageData_cases
    [of "drawImageScaled B SourceOver (img st) (width (img st)) (height (img st))
           (cv (fitCanvasToImage (width (img st)) (height (img st)) st))"]
  by (auto simp: reset_click_def Let_def fitCanvasToImage_cv)

lemma overlayCommands_cong:
  assumes "width (cv st') = width (cv st)" "height (cv st') = height (cv st)"
    "time_value st' = time_value st" "date_value st' = date_value st" "dow_value st' = dow_value st"
  shows "overlayCommands B st' = overlayCommands B st"
  using assms by (simp add: overlayCommands_def)

lemma clearMask_state:
  assumes "hasImage st" "wf_raster (maskCanvas st)"
  shows "snd (clearMask_click B st)
           = st\<lparr>maskCanvas := blank (width (maskCanvas st)) (height (maskCanvas st)),
                 cv := sharpBase B st, statusEl := UndoDone\<rparr>"
  using assms
  by (simp add: clearMask_click_def clearRect_full drawBase_def not_has_blank sharpBase_def)

subsection \<open>Helper lemmas: the layout\<close>

lemma drawWatermark_snd: "snd (drawWatermark B W H) = reservedRightSpan B W H"
  by (simp add: drawWatermark_def Let_def)

lemma drawWatermark_texts:
  "map cmd_text (fst (drawWatermark B W H)) = [Some subText, Some timePart, Some markPart]"
  by (simp add: drawWatermark_def Let_def)

lemma drawLeftCluster_texts:
  "map cmd_text (drawLeftCluster B W H r timeVal dateText dowText)
     = [Some timeVal, None, Some dateText, Some dowText, Some addr2, Some addr1]"
  by (simp add: drawLeftCluster_def Let_def)

lemma overlayCommands_texts:
  "map cmd_text (overlayCommands B st)
     = [Some subText, Some timePart, Some markPart,
        Some (js_or (time_value st) fallbackTime), None,
        Some (js_or (formatDateDDMMYYYY (date_value st)) fallbackDate),
        Some (js_or (dow_value st) fallbackDow), Some addr2, Some addr1]"
  by (simp add: overlayCommands_def Let_def drawWatermark_texts drawLeftCluster_texts
      split: prod.splits) (metis drawWatermark_texts fst_conv)

lemma drawBase_fields [simp]:
  "time_value (drawBase B st) = time_value st"
  "date_value (drawBase B st) = date_value st"
  "dow_value (drawBase B st) = dow_value st"
  by (simp_all add: drawBase_def)

lemma clamp_bounds: "lo \<le> hi \<Longrightarrow> lo \<le> clamp n lo hi \<and> clamp n lo hi \<le> hi"
  by (simp add: clamp_def)

lemma maxWidth_ge: "150 \<le> maxWidth W r"
  by (simp add: maxWidth_def)

lemma minMetaW_nonneg: "0 \<le> minMetaW W r"
proof -
  have "0 \<le> real_of_int (maxWidth W r) * 0.34"
    using maxWidth_ge [of W r] by simp
  then show ?thesis
    unfolding minMetaW_def by (rule math_round_nonneg)
qed

lemma maxTimeW_le: "maxTimeW W r \<le> maxWidth W r"
  using maxWidth_ge [of W r] minMetaW_nonneg [of W r] by (simp add: maxTimeW_def)

lemma dividerWidth_le:
  assumes "min W H \<le> 2500"
  shows "dividerWidth W H \<le> 2 * gapX W H"
proof -
  have "real (min W H) * 0.004 \<le> 10"
    using assms by simp
  then have "math_round (real (min W H) * 0.004) \<le> math_round 10"
    by (rule math_round_mono)
  then have "dividerWidth W H \<le> 10"
    by (simp add: dividerWidth_def math_round_def)
  moreover have "8 \<le> gapX W H"
    by (simp add: gapX_def clamp_def)
  ultimately show ?thesis by simp
qed

lemma fit_fits:
  "minSize < fitFontToWidth ms t f sz minSize mw
     \<Longrightarrow> ms (f (fitFontToWidth ms t f sz minSize mw)) t \<le> mw"
  using fit_fits_or_min [of ms t f sz minSize mw] by auto

lemmas layout_defs =
  reservedRightSpan_def padR_def padB_def wmWidth_def wmFont_def subFont_def wmTpl_def subTpl_def
  fullText_def timePart_def markPart_def leftMaxWidth_def leftX_def bottomPad_def
  rightLimit_def maxWidth_def addrFont_def addrLineH_def gapMetaToAddr_def minMetaW_def
  maxTimeW_def timeFont_def timeScaleY_def addrBottomY_def timeBaselineY_def timeW_def gapX_def
  lineX_def lineTop_def lineBottom_def metaX_def metaMaxW_def longer_def metaFont_def
  dividerWidth_def addrTpl_def timeTpl_def metaTpl_def clamp_def math_round_def

lemma sample_measure: "measureText sample_browser = half_em"
  by (simp add: sample_browser_def)

lemmas sample_text_defs =
  sample_measure half_em_def ascii_def addr1_def addr2_def fallbackTime_def
  fallbackDate_def fallbackDow_def

subsection \<open>Helper lemmas: the users table\<close>

lemma count_admins_delete_other:
  assumes "select_role db name \<noteq> Some ''admin''" "unique_usernames db"
  shows "count_admins (delete_by_username db name) = count_admins db"
  using assms
proof (induction db)
  case Nil
  show ?case by (simp add: delete_by_username_def)
next
  case (Cons u db)
  show ?case
  proof (cases "username u = name")
    case True
    then have nr: "role u \<noteq> ''admin''"
      using Cons.prems(1) by (simp add: select_role_def)
    have "name \<notin> set (map username db)"
      using Cons.prems(2) True by (auto simp: unique_usernames_def)
    then have "filter (\<lambda>v. username v \<noteq> name) db = db"
      by (auto simp: filter_id_conv)
    with True nr show ?thesis
      by (simp add: delete_by_username_def count_admins_def)
  next
    case False
    then have "select_role db name \<noteq> Some ''admin''"
      using Cons.prems(1) by (simp add: select_role_def)
    moreover have "unique_usernames db"
      using Cons.prems(2) by (simp add: unique_usernames_def)
    ultimately have "count_admins (delete_by_username db name) = count_admins db"
      by (rule Cons.IH)
    with False show ?thesis
      by (simp add: delete_by_username_def count_admins_def)
  qed
qed

lemma count_admins_delete_one:
  assumes "unique_usernames db"
  shows "count_admins db \<le> count_admins (delete_by_username db name) + 1"
  using assms
proof (induction db)
  case Nil
  show ?case by (simp add: delete_by_username_def count_admins_def)
next
  case (Cons u db)
  have udb: "unique_usernames db"
    using Cons.prems by (simp add: unique_usernames_def)
  show ?case
  proof (cases "username u = name")
    case True
    have "name \<notin> set (map username db)"
      using Cons.prems True by (auto simp: unique_usernames_def)
    then have "filter (\<lambda>v. username v \<noteq> name) db = db"
      by (auto simp: filter_id_conv)
    with True show ?thesis
      by (simp add: delete_by_username_def count_admins_def)
  next
    case False
    with Cons.IH [OF udb] show ?thesis
      by (simp add: delete_by_username_def count_admins_def)
  qed
qed

lemma unique_delete: "unique_usernames db \<Longrightarrow> unique_usernames (delete_by_username db name)"
  by (simp add: unique_usernames_def delete_by_username_def distinct_map_filter)

lemma delete_cases:
  "fst (snd (admin_delete_user py_int form db sess)) = db
   \<or> (\<not> (select_role db (strip (case f_username form of None \<Rightarrow> [] | Some s \<Rightarrow> s)) = Some ''admin''
          \<and> count_admins db \<le> 1)
      \<and> fst (snd (admin_delete_user py_int form db sess))
          = delete_by_username db (strip (case f_username form of None \<Rightarrow> [] | Some s \<Rightarrow> s)))"
  by (simp add: admin_delete_user_def Let_def split: option.splits)

subsection \<open>Helper lemmas: reachable states\<close>

lemma clear_mask_hasImage:
  assumes "hasImage st" "wf_raster (maskCanvas st)" "wf_raster (cv st)"
  shows "\<not> maskHasSomething (maskCanvas (snd (clearMask_click B st)))
    \<and> maskCanvas (snd (clearMask_click B st))
        = blank (width (maskCanvas st)) (height (maskCanvas st))
    \<and> cv (snd (render_click B (snd (clearMask_click B st))))
        = cv (snd (render_click B
                 (st\<lparr>maskCanvas := blank (width (maskCanvas st)) (height (maskCanvas st))\<rparr>)))"
proof -
  let ?b = "blank (width (maskCanvas st)) (height (maskCanvas st))"
  let ?st1 = "st\<lparr>maskCanvas := ?b, cv := sharpBase B st, statusEl := UndoDone\<rparr>"
  let ?st2 = "st\<lparr>maskCanvas := ?b\<rparr>"
  have s1: "snd (clearMask_click B st) = ?st1"
    using assms by (simp add: clearMask_state)
  have base1: "sharpBase B ?st1 = sharpBase B st"
    by (rule sharpBase_cong) (use assms in \<open>simp_all add: wf_raster_def\<close>)
  have base2: "sharpBase B ?st2 = sharpBase B st"
    by (simp add: sharpBase_def)
  have d1: "drawBase B ?st1 = ?st1\<lparr>cv := sharpBase B st\<rparr>"
    using base1 by (simp add: drawBase_def not_has_blank)
  have d2: "drawBase B ?st2 = ?st2\<lparr>cv := sharpBase B st\<rparr>"
    using base2 by (simp add: drawBase_def not_has_blank)
  have oc: "overlayCommands B (?st1\<lparr>cv := sharpBase B st\<rparr>)
              = overlayCommands B (?st2\<lparr>cv := sharpBase B st\<rparr>)"
    by (rule overlayCommands_cong) simp_all
  have "cv (drawAllOverlay B ?st1) = cv (drawAllOverlay B ?st2)"
    using assms(1) d1 d2 oc by (simp add: drawAllOverlay_def Let_def)
  then have "cv (snd (render_click B ?st1)) = cv (snd (render_click B ?st2))"
    using assms(1) by (simp add: render_click_def)
  with s1 show ?thesis
    by (simp add: not_has_blank)
qed

lemma loadImage_hasImage: "hasImage (snd (loadImage B d t st))"
  using getImageData_cases
    [of "drawImageScaled B SourceOver d (width d) (height d)
           (cv (fitCanvasToImage (width d) (height d) (st\<lparr>img := d\<rparr>)))"]
  by (auto simp: loadImage_def Let_def)

lemma dispatch_no_image:
  assumes "\<not> hasImage (snd (dispatch B ev st))"
  shows "cv (snd (dispatch B ev st)) = cv st \<and> maskCanvas (snd (dispatch B ev st)) = maskCanvas st
         \<and> \<not> hasImage st"
proof (cases ev)
  case (ImageLoaded d t)
  with assms loadImage_hasImage [of B d t st] show ?thesis by simp
next
  case RenderClick
  with assms show ?thesis
    by (auto simp: render_click_def drawAllOverlay_def Let_def drawBase_def split: if_splits)
next
  case ResetClick
  with assms reset_mask [of st B] show ?thesis
    using getImageData_cases
      [of "drawImageScaled B SourceOver (img st) (width (img st)) (height (img st))
           (cv (fitCanvasToImage (width (img st)) (height (img st)) st))"]
    by (auto simp: reset_click_def Let_def split: if_splits)
next
  case DownloadClick
  with assms show ?thesis by (auto simp: download_click_def split: if_splits)
next
  case ToggleMaskClick
  with assms show ?thesis by (auto simp: toggleMask_click_def)
next
  case ClearMaskClick
  with assms show ?thesis
    by (auto simp: clearMask_click_def drawBase_def split: if_splits)
next
  case (MouseDown e)
  with assms show ?thesis
    by (auto simp: mousedown_def paint_def drawBase_def Let_def split: if_splits prod.splits)
next
  case (MouseMove e)
  with assms show ?thesis
    by (auto simp: paint_def drawBase_def Let_def split: if_splits prod.splits)
next
  case MouseUp
  with assms show ?thesis by (auto simp: mouseup_def)
qed (use assms in auto)

lemma reachable_no_image:
  "reachable B st \<Longrightarrow> \<not> hasImage st \<Longrightarrow>
     cv st = blank 300 150 \<and> maskCanvas st = blank 300 150"
proof (induction rule: reachable.induct)
  case init
  show ?case by (simp add: initial_state_def)
next
  case (step st ev)
  from dispatch_no_image [OF step.prems] step.IH show ?case by simp
qed

lemma fold_rasterize_dims:
  assumes "browser_ok B"
  shows "width (fold (rasterize B) cs r) = width r \<and> height (fold (rasterize B) cs r) = height r
         \<and> length (pixels (fold (rasterize B) cs r)) = length (pixels r)"
  using assms by (induction cs arbitrary: r) (auto simp: browser_ok_def keeps_dims_def)

lemma wf_same_dims:
  "wf_raster r \<Longrightarrow> width r' = width r \<Longrightarrow> height r' = height r
     \<Longrightarrow> length (pixels r') = length (pixels r) \<Longrightarrow> wf_raster r'"
  by (simp add: wf_raster_def)

lemma drawBase_cv_dims:
  "width (cv (drawBase B st)) = width (cv st)"
  "height (cv (drawBase B st)) = height (cv st)"
  "length (pixels (cv (drawBase B st))) = length (pixels (cv st))"
  "maskCanvas (drawBase B st) = maskCanvas st"
  by (simp_all add: drawBase_def)

lemma canvases_ok_drawBase: "canvases_ok st \<Longrightarrow> canvases_ok (drawBase B st)"
  by (simp add: canvases_ok_def drawBase_cv_dims wf_raster_def)

lemma drawAllOverlay_dims:
  assumes "browser_ok B"
  shows "width (cv (drawAllOverlay B st)) = width (cv st)"
    "height (cv (drawAllOverlay B st)) = height (cv st)"
    "length (pixels (cv (drawAllOverlay B st))) = length (pixels (cv st))"
    "maskCanvas (drawAllOverlay B st) = maskCanvas st"
  using fold_rasterize_dims [OF assms]
  by (simp_all add: drawAllOverlay_def Let_def drawBase_cv_dims)

lemma canvases_ok_fit:
  "canvases_ok (fitCanvasToImage w h st)"
  by (simp add: canvases_ok_def fitCanvasToImage_mask wf_blank)
     (simp add: fitCanvasToImage_def set_width_def set_height_def wf_blank split: prod.splits)

lemma canvases_ok_dispatch:
  assumes ok: "browser_ok B" and c: "canvases_ok st"
  shows "canvases_ok (snd (dispatch B ev st))"
proof (cases ev)
  case (ImageLoaded d t)
  have "canvases_ok (fitCanvasToImage (width d) (height d) (st\<lparr>img := d\<rparr>))"
    by (rule canvases_ok_fit)
  then show ?thesis
    using ImageLoaded getImageData_cases
    [of "drawImageScaled B SourceOver d (width d) (height d)
           (cv (fitCanvasToImage (width d) (height d) (st\<lparr>img := d\<rparr>)))"]
    by (auto simp: loadImage_def Let_def canvases_ok_def wf_raster_def)
next
  case RenderClick
  then show ?thesis
    using c drawAllOverlay_dims [OF ok, of st]
    by (auto simp: render_click_def canvases_ok_def wf_raster_def)
next
  case ResetClick
  have "canvases_ok (fitCanvasToImage (width (img st)) (height (img st)) st)"
    by (rule canvases_ok_fit)
  then show ?thesis
    using ResetClick c getImageData_cases
      [of "drawImageScaled B SourceOver (img st) (width (img st)) (height (img st))
           (cv (fitCanvasToImage (width (img st)) (height (img st)) st))"]
    by (auto simp: reset_click_def Let_def canvases_ok_def wf_raster_def)
next
  case DownloadClick
  with c show ?thesis by (auto simp: download_click_def)
next
  case ToggleMaskClick
  with c show ?thesis by (auto simp: toggleMask_click_def canvases_ok_def)
next
  case ClearMaskClick
  with c show ?thesis
    by (auto simp: clearMask_click_def canvases_ok_def wf_raster_def drawBase_cv_dims)
next
  case (MouseDown e)
  with c ok show ?thesis
    by (auto simp: mousedown_def paint_def Let_def canvases_ok_def wf_raster_def
        drawBase_cv_dims browser_ok_def keeps_dims_def split: prod.splits)
next
  case (MouseMove e)
  with c ok show ?thesis
    by (auto simp: paint_def Let_def canvases_ok_def wf_raster_def
        drawBase_cv_dims browser_ok_def keeps_dims_def split: prod.splits)
next
  case MouseUp
  with c show ?thesis by (auto simp: mouseup_def canvases_ok_def)
qed (use c in \<open>auto simp: canvases_ok_def\<close>)

lemma reachable_canvases_ok:
  "reachable B st \<Longrightarrow> browser_ok B \<Longrightarrow> canvases_ok st"
proof (induction rule: reachable.induct)
  case init
  show ?case by (simp add: canvases_ok_def initial_state_def wf_blank)
next
  case (step st ev)
  then show ?case by (simp add: canvases_ok_dispatch)
qed

lemma sample_browser_ok: "browser_ok sample_browser"
  by (auto simp: browser_ok_def keeps_dims_def sample_browser_def split: list.splits)


lemma blank21: "blank 2 1 = \<lparr>width = 2, height = 1, pixels = [transparent, transparent]\<rparr>"
  by (simp add: blank_def numeral_2_eq_2)

lemma upt02: "[0..<2] = [0, Suc 0]"
  by (simp add: upt_rec)

lemma drawBase_hasImage [simp]: "hasImage (drawBase B st) = hasImage st"
  by (simp add: drawBase_def)

lemma loaded_by_events:
  "snd (dispatch sample_browser (ImageLoaded sample_image (ascii ''2026-11-04'')) initial_state)
     = initial_state\<lparr>cv := sample_image, maskCanvas := blank 2 1, img := sample_image,
         hasImage := True, originalBitmap := Some [10, 10, 10, 255, 200, 200, 200, 255],
         date_value := ascii ''2026-11-04'', statusEl := ImageSize 2 1\<rparr>"
proof -
  have fit: "fitCanvasToImage 2 (Suc 0) (initial_state\<lparr>img := sample_image\<rparr>)
               = initial_state\<lparr>img := sample_image, cv := blank 2 1, maskCanvas := blank 2 1\<rparr>"
    by (simp add: fitCanvasToImage_def capped_dims_def MAX_DIM_def set_width_def set_height_def
        clearRect_blank initial_state_def sample_image_def)
  have draw: "drawImageScaled sample_browser SourceOver sample_image 2 (Suc 0) (blank 2 (Suc 0))
                = sample_image"
    unfolding blank21 [unfolded One_nat_def]
    by (simp add: drawImageScaled_def sample_browser_def sample_image_def pixel_at_def
        grey_def transparent_def upt02)
  have data: "getImageData sample_image = Inr [10, 10, 10, 255, 200, 200, 200, 255]"
    by (simp add: getImageData_def imageData_def sample_image_def grey_def)
  have dims: "width sample_image = 2" "height sample_image = Suc 0"
    by (simp_all add: sample_image_def)
  have "date_value initial_state = []"
    by (simp add: initial_state_def)
  then show ?thesis
    using dims by (simp add: loadImage_def Let_def fit draw data)
qed

lemma painted_by_events:
  "hasImage events_painted \<and> maskCanvas events_painted
     = \<lparr>width = 2, height = 1, pixels = [brushPixel, brushPixel]\<rparr>"
proof -
  have en: "maskEnabled initial_state = False" "brush_value initial_state = 55"
    by (simp_all add: initial_state_def)
  have arc: "fillArc sample_browser (1 / 2) (1 / 2) (55 / 2) (blank 2 1)
               = \<lparr>width = 2, height = 1, pixels = [brushPixel, brushPixel]\<rparr>"
    unfolding blank21 by (simp add: sample_browser_def power2_eq_square)
  have rect: "rect_width sample_event \<noteq> 0" "rect_height sample_event \<noteq> 0"
    by (simp_all add: sample_event_def)
  show ?thesis
    unfolding events_painted_def loaded_by_events
    using arc
    by (simp add: toggleMask_click_def mousedown_def paint_def Let_def en rect getPos_def
        sample_event_def sample_image_def drawBase_cv_dims)
qed

lemma reachable_events_painted: "reachable sample_browser events_painted"
  unfolding events_painted_def by (intro reachable.step reachable.init)

subsection \<open>Helper lemmas: renders\<close>

lemma sharpBase_blank:
  "wf_raster (cv st) \<Longrightarrow>
     sharpBase B st = drawImageScaled B SourceOver (img st) (width (img st)) (height (img st))
                        (blank (width (cv st)) (height (cv st)))"
  by (simp add: sharpBase_def clearRect_full)

lemma drawImageScaled_blank:
  "drawImageScaled B op src sw sh (blank w h)
     = \<lparr>width = w, height = h,
        pixels = map (\<lambda>i. composite B op (scaled B src sw sh w h ! i) transparent)
                     [0 ..< w * h]\<rparr>"
  by (simp add: drawImageScaled_def blank_def)

lemma fold_sample_rasterize:
  "fold (rasterize sample_browser) cs r
     = (if cs = [] then r
        else r\<lparr>pixels := (case pixels r of [] \<Rightarrow> [] | p # ps \<Rightarrow> brushPixel # ps)\<rparr>)"
proof (induction cs arbitrary: r)
  case Nil
  show ?case by simp
next
  case (Cons c cs)
  show ?case
    by (simp add: Cons.IH) (simp add: sample_browser_def split: list.splits)
qed

lemma overlayCommands_nonempty: "overlayCommands B st \<noteq> []"
  using overlayCommands_texts [of B st] by auto

lemma render_after_undo:
  assumes "browser_ok B" "reachable B st" "hasImage st"
    and "hasImage st0" "img st0 = img st" "wf_raster (cv st0)"
    and "width (cv st0) = width (cv st)" "height (cv st0) = height (cv st)"
    and "\<not> maskHasSomething (maskCanvas st0)"
    and "time_value st0 = time_value st" "date_value st0 = date_value st"
        "dow_value st0 = dow_value st"
  shows "cv (snd (render_click B (snd (clearMask_click B st)))) = cv (snd (render_click B st0))"
proof -
  have ok: "canvases_ok st"
    using assms(2,1) by (rule reachable_canvases_ok)
  then have wf: "wf_raster (maskCanvas st)" "wf_raster (cv st)"
    by (simp_all add: canvases_ok_def)
  let ?b = "blank (width (maskCanvas st)) (height (maskCanvas st))"
  let ?st1 = "st\<lparr>maskCanvas := ?b, cv := sharpBase B st, statusEl := UndoDone\<rparr>"
  have s1: "snd (clearMask_click B st) = ?st1"
    using assms(3) wf by (simp add: clearMask_state)
  have base1: "sharpBase B ?st1 = sharpBase B st"
    by (rule sharpBase_cong) (use wf in \<open>simp_all add: wf_raster_def\<close>)
  have base0: "sharpBase B st0 = sharpBase B st"
    by (rule sharpBase_cong) (use wf assms in simp_all)
  have d1: "drawBase B ?st1 = ?st1\<lparr>cv := sharpBase B st\<rparr>"
    using base1 by (simp add: drawBase_def not_has_blank)
  have d0: "drawBase B st0 = st0\<lparr>cv := sharpBase B st\<rparr>"
    using base0 assms(9) by (simp add: drawBase_def)
  have oc: "overlayCommands B (?st1\<lparr>cv := sharpBase B st\<rparr>)
              = overlayCommands B (st0\<lparr>cv := sharpBase B st\<rparr>)"
    by (rule overlayCommands_cong) (use assms in simp_all)
  have "cv (drawAllOverlay B ?st1) = cv (drawAllOverlay B st0)"
    using assms(3,4) d1 d0 oc by (simp add: drawAllOverlay_def Let_def)
  then have "cv (snd (render_click B ?st1)) = cv (snd (render_click B st0))"
    using assms(3,4) by (simp add: render_click_def)
  with s1 show ?thesis by simp
qed


lemma events_painted_fields:
  "img events_painted = sample_image \<and> time_value events_painted = time_value events_loaded
   \<and> date_value events_painted = date_value events_loaded
   \<and> dow_value events_painted = dow_value events_loaded
   \<and> width (cv events_painted) = 2 \<and> height (cv events_painted) = 1"
  unfolding events_painted_def events_loaded_def loaded_by_events
  by (simp add: toggleMask_click_def mousedown_def paint_def Let_def drawBase_def
      sample_image_def split: prod.splits)

lemma events_loaded_facts:
  "hasImage events_loaded \<and> img events_loaded = sample_image \<and> cv events_loaded = sample_image
   \<and> maskCanvas events_loaded = blank 2 1"
  unfolding events_loaded_def loaded_by_events by simp

lemma sample_render:
  assumes "hasImage st" "img st = sample_image" "wf_raster (cv st)"
    "width (cv st) = 2" "height (cv st) = 1" "\<not> maskHasSomething (maskCanvas st)"
  shows "cv (snd (render_click sample_browser st))
           = \<lparr>width = 2, height = 1, pixels = [brushPixel, grey 200]\<rparr>"
proof -
  have s: "map (\<lambda>i. composite sample_browser SourceOver
                      (scaled sample_browser sample_image (width sample_image)
                         (height sample_image) 2 1 ! i) transparent) [0 ..< 2 * 1]
             = [grey 10, grey 200]"
    by (simp add: sample_browser_def sample_image_def pixel_at_def grey_def upt02)
  have "sharpBase sample_browser st = \<lparr>width = 2, height = 1, pixels = [grey 10, grey 200]\<rparr>"
    using assms s by (simp add: sharpBase_blank drawImageScaled_blank)
  then show ?thesis
    using assms
    by (simp add: render_click_def drawAllOverlay_def Let_def drawBase_def
        fold_sample_rasterize overlayCommands_nonempty)
qed


lemma painted_canvas:
  "cv events_painted = \<lparr>width = 2, height = 1, pixels = [grey 10, grey 10]\<rparr>"
proof -
  let ?m = "\<lparr>width = 2, height = 1, pixels = [brushPixel, brushPixel]\<rparr>"
  let ?s = "initial_state\<lparr>cv := sample_image, img := sample_image,
         hasImage := True, originalBitmap := Some [10, 10, 10, 255, 200, 200, 200, 255],
         date_value := ascii ''2026-11-04'', statusEl := ImageSize 2 1, maskEnabled := True,
         isPainting := True, maskCanvas := ?m\<rparr>"
  have arc: "fillArc sample_browser (1 / 2) (1 / 2) (55 / 2) (blank 2 1) = ?m"
    unfolding blank21 by (simp add: sample_browser_def power2_eq_square)
  have en: "maskEnabled initial_state = False" "brush_value initial_state = 55"
    by (simp_all add: initial_state_def)
  have rect: "rect_width sample_event \<noteq> 0" "rect_height sample_event \<noteq> 0"
    by (simp_all add: sample_event_def)
  have ep: "events_painted = drawBase sample_browser ?s"
    unfolding events_painted_def loaded_by_events
    using arc
    by (simp add: toggleMask_click_def mousedown_def paint_def Let_def en rect getPos_def
        sample_event_def sample_image_def)
  have has: "maskHasSomething ?m"
    by (simp add: maskHasSomething_iff brushPixel_def)
  have sharp: "sharpBase sample_browser ?s = sample_image"
    by (simp add: sharpBase_blank drawImageScaled_blank wf_raster_def sample_image_def
        sample_browser_def pixel_at_def grey_def upt02)
  have fl: "nat \<lfloor>real (2::nat) * 0.15\<rfloor> = 0" "nat \<lfloor>real (Suc 0) * 0.15\<rfloor> = 0"
    by simp_all
  have blur: "blurLayer sample_browser ?s = \<lparr>width = 2, height = 1, pixels = [grey 10, grey 10]\<rparr>"
    by (simp add: blurLayer_def Let_def drawImageScaled_blank drawImage_def sample_image_def
        sample_browser_def pixel_at_def grey_def brushPixel_def upt02 fl)
  show ?thesis
    unfolding ep
    using has sharp blur
    by (simp add: drawBase_def drawImage_def sample_image_def sample_browser_def pixel_at_def
        grey_def)
qed

subsection \<open>Date formatting\<close>

text \<open>
  C4. \<open>formatDateDDMMYYYY("2026-01-05")\<close> is \<open>"05/01/2026"\<close>; an ISO date, four digits,
  two digits and two digits joined by hyphens, comes out as day, month and year joined
  by slashes; and an input whose number of hyphens is not two gives the empty string.
\<close>

theorem formatDate_spec:
  "formatDateDDMMYYYY (ascii ''2026-01-05'') = ascii ''05/01/2026''
   \<and> (list_all is_digit y \<and> length y = 4 \<and> list_all is_digit m \<and> length m = 2
        \<and> list_all is_digit d \<and> length d = 2
      \<longrightarrow> formatDateDDMMYYYY (y @ [hyphen] @ m @ [hyphen] @ d) = d @ [slash] @ m @ [slash] @ y)
   \<and> (count_list isoText hyphen \<noteq> 2 \<longrightarrow> formatDateDDMMYYYY isoText = [])"
proof (intro conjI impI)
  show "formatDateDDMMYYYY (ascii ''2026-01-05'') = ascii ''05/01/2026''"
    by (simp add: formatDateDDMMYYYY_def ascii_def hyphen_def slash_def zero_digit_def
        padStart_def)
next
  assume a: "list_all is_digit y \<and> length y = 4 \<and> list_all is_digit m \<and> length m = 2
        \<and> list_all is_digit d \<and> length d = 2"
  then have "hyphen \<notin> set y" "hyphen \<notin> set m" "hyphen \<notin> set d"
    by (simp_all add: digits_no_hyphen)
  then show "formatDateDDMMYYYY (y @ [hyphen] @ m @ [hyphen] @ d) = d @ [slash] @ m @ [slash] @ y"
    using a by (simp add: formatDate_parts padStart_def)
next
  assume "count_list isoText hyphen \<noteq> 2"
  then show "formatDateDDMMYYYY isoText = []"
    by (rule formatDate_wrong_count)
qed

theorem formatDate_spec_witness:
  "formatDateDDMMYYYY (ascii ''1999-12-31'') = ascii ''31/12/1999''
   \<and> count_list (ascii ''2026-01'') hyphen \<noteq> 2
   \<and> formatDateDDMMYYYY (ascii ''2026-01'') = []"
  using formatDate_spec [of "ascii ''1999''" "ascii ''12''" "ascii ''31''" "ascii ''2026-01''"]
  by (simp add: ascii_def is_digit_def hyphen_def slash_def)

subsection \<open>The fitter's bounds\<close>

text \<open>
  C2. With \<open>minSize \<le> startSize\<close> the fitter returns a size between \<open>minSize\<close> and
  \<open>startSize\<close>; and with everything else fixed, a larger \<open>maxWidth\<close> never gives a
  smaller size.
\<close>

theorem fitFontToWidth_bounds_mono:
  "(minSize \<le> startSize \<longrightarrow>
      minSize \<le> fitFontToWidth ms t f startSize minSize mw
      \<and> fitFontToWidth ms t f startSize minSize mw \<le> startSize)
   \<and> (mw \<le> mw' \<longrightarrow>
      fitFontToWidth ms t f startSize minSize mw \<le> fitFontToWidth ms t f startSize minSize mw')"
  using fit_ge_min [of minSize startSize ms t f mw]
    fit_le_start [of minSize startSize ms t f mw]
    fit_mono [of mw mw' ms t f startSize minSize]
  by blast

theorem fitFontToWidth_bounds_mono_witness:
  "(12::int) \<le> 16 \<and> (35::real) \<le> 60
   \<and> fitFontToWidth half_em (ascii ''Timemark'') (Font 700) 16 12 35 = 12
   \<and> fitFontToWidth half_em (ascii ''Timemark'') (Font 700) 16 12 60 = 15"
  using fitFontToWidth_bounds_mono
    [of 12 16 half_em "ascii ''Timemark''" "Font 700" 35 60]
  by (simp add: fitFontToWidth.simps half_em_def ascii_def)

subsection \<open>The dimension cap\<close>

text \<open>
  C3. When a natural dimension of the source exceeds 2500, \<open>fitCanvasToImage\<close> gives a
  canvas whose larger dimension is exactly 2500 and whose other dimension is the
  proportionally scaled one rounded to the nearest integer (the aspect ratio is kept
  within rounding); when both dimensions are at most 2500 they are kept as they are.
\<close>

theorem fitCanvasToImage_cap:
  "(w > 2500 \<or> h > 2500 \<longrightarrow>
      max (width (cv (fitCanvasToImage w h st))) (height (cv (fitCanvasToImage w h st))) = 2500
      \<and> (h \<le> w \<longrightarrow> \<bar>real (height (cv (fitCanvasToImage w h st))) - real h * 2500 / real w\<bar> \<le> 1 / 2)
      \<and> (w \<le> h \<longrightarrow> \<bar>real (width (cv (fitCanvasToImage w h st))) - real w * 2500 / real h\<bar> \<le> 1 / 2))
   \<and> (w \<le> 2500 \<and> h \<le> 2500 \<longrightarrow>
      width (cv (fitCanvasToImage w h st)) = w \<and> height (cv (fitCanvasToImage w h st)) = h)"
proof (intro conjI impI)
  assume big: "w > 2500 \<or> h > 2500"
  show "max (width (cv (fitCanvasToImage w h st))) (height (cv (fitCanvasToImage w h st))) = 2500"
  proof (cases "h \<le> w")
    case True
    with big have "w > MAX_DIM" by (auto simp: MAX_DIM_def)
    from capped_dims_wide(1,2) [OF this True] show ?thesis
      by (simp add: fitCanvasToImage_cv MAX_DIM_def)
  next
    case False
    with big have "h > MAX_DIM" "w \<le> h" by (auto simp: MAX_DIM_def)
    from capped_dims_tall(1,2) [OF this] show ?thesis
      by (simp add: fitCanvasToImage_cv MAX_DIM_def)
  qed
next
  assume big: "w > 2500 \<or> h > 2500" and "h \<le> w"
  then have "w > MAX_DIM" by (auto simp: MAX_DIM_def)
  from capped_dims_wide(3) [OF this \<open>h \<le> w\<close>]
  show "\<bar>real (height (cv (fitCanvasToImage w h st))) - real h * 2500 / real w\<bar> \<le> 1 / 2"
    by (simp add: fitCanvasToImage_cv MAX_DIM_def)
next
  assume big: "w > 2500 \<or> h > 2500" and "w \<le> h"
  then have "h > MAX_DIM" by (auto simp: MAX_DIM_def)
  from capped_dims_tall(3) [OF this \<open>w \<le> h\<close>]
  show "\<bar>real (width (cv (fitCanvasToImage w h st))) - real w * 2500 / real h\<bar> \<le> 1 / 2"
    by (simp add: fitCanvasToImage_cv MAX_DIM_def)
next
  assume "w \<le> 2500 \<and> h \<le> 2500"
  then show "width (cv (fitCanvasToImage w h st)) = w"
    by (simp add: fitCanvasToImage_cv capped_dims_small MAX_DIM_def)
next
  assume "w \<le> 2500 \<and> h \<le> 2500"
  then show "height (cv (fitCanvasToImage w h st)) = h"
    by (simp add: fitCanvasToImage_cv capped_dims_small MAX_DIM_def)
qed

theorem fitCanvasToImage_cap_witness:
  "(4000::nat) > 2500 \<and> (3000::nat) \<le> 4000
   \<and> width (cv (fitCanvasToImage 4000 3000 initial_state)) = 2500
   \<and> height (cv (fitCanvasToImage 4000 3000 initial_state)) = 1875
   \<and> width (cv (fitCanvasToImage 1000 3000 initial_state)) = 833
   \<and> height (cv (fitCanvasToImage 1000 3000 initial_state)) = 2500
   \<and> (1200::nat) \<le> 2500 \<and> (1600::nat) \<le> 2500
   \<and> width (cv (fitCanvasToImage 1200 1600 initial_state)) = 1200
   \<and> height (cv (fitCanvasToImage 1200 1600 initial_state)) = 1600"
  using fitCanvasToImage_cap [of 4000 3000 initial_state]
    fitCanvasToImage_cap [of 1000 3000 initial_state]
    fitCanvasToImage_cap [of 1200 1600 initial_state]
  by (simp add: fitCanvasToImage_cv capped_dims_def cap_ratio_def MAX_DIM_def math_round_def)

subsection \<open>Skipping the blur\<close>

text \<open>
  C6. \<open>maskHasSomething\<close> is true exactly when the mask has non-zero width and height
  and some pixel with alpha above zero (for a well-formed bitmap: exactly when some pixel
  has alpha above zero). When it is false, \<open>drawBase\<close> changes the canvas only, and
  leaves on it the image drawn alone on a blank bitmap of the canvas's dimensions,
  whatever the canvas showed before: pixel \<open>i\<close> is the resampled image's pixel \<open>i\<close>
  composited over transparent. Nothing of the blur pass is in the result.
\<close>

theorem maskHasSomething_blur_skip:
  "(maskHasSomething m \<longleftrightarrow>
      width m \<noteq> 0 \<and> height m \<noteq> 0 \<and> (\<exists>p \<in> set (pixels m). alpha p > 0))
   \<and> (wf_raster m \<longrightarrow> (maskHasSomething m \<longleftrightarrow> (\<exists>p \<in> set (pixels m). alpha p > 0)))
   \<and> (wf_raster (cv st) \<and> \<not> maskHasSomething (maskCanvas st) \<longrightarrow>
        drawBase B st
          = st\<lparr>cv := drawImageScaled B SourceOver (img st) (width (img st)) (height (img st))
                         (blank (width (cv st)) (height (cv st)))\<rparr>
        \<and> cv (drawBase B st)
          = \<lparr>width = width (cv st), height = height (cv st),
             pixels = map (\<lambda>i. composite B SourceOver
                                  (scaled B (img st) (width (img st)) (height (img st))
                                     (width (cv st)) (height (cv st)) ! i) transparent)
                          [0 ..< width (cv st) * height (cv st)]\<rparr>)"
proof (intro conjI impI)
  show "maskHasSomething m \<longleftrightarrow>
      width m \<noteq> 0 \<and> height m \<noteq> 0 \<and> (\<exists>p \<in> set (pixels m). alpha p > 0)"
    by (rule maskHasSomething_iff)
next
  assume wf: "wf_raster m"
  have "width m \<noteq> 0 \<and> height m \<noteq> 0" if "p \<in> set (pixels m)" for p
  proof -
    from that have "length (pixels m) \<noteq> 0" by auto
    with wf show ?thesis by (auto simp: wf_raster_def)
  qed
  then show "maskHasSomething m \<longleftrightarrow> (\<exists>p \<in> set (pixels m). alpha p > 0)"
    unfolding maskHasSomething_iff by blast
next
  assume a: "wf_raster (cv st) \<and> \<not> maskHasSomething (maskCanvas st)"
  then show "drawBase B st
          = st\<lparr>cv := drawImageScaled B SourceOver (img st) (width (img st)) (height (img st))
                         (blank (width (cv st)) (height (cv st)))\<rparr>"
    by (simp add: drawBase_def sharpBase_blank)
  then show "cv (drawBase B st)
          = \<lparr>width = width (cv st), height = height (cv st),
             pixels = map (\<lambda>i. composite B SourceOver
                                  (scaled B (img st) (width (img st)) (height (img st))
                                     (width (cv st)) (height (cv st)) ! i) transparent)
                          [0 ..< width (cv st) * height (cv st)]\<rparr>"
    by (simp add: drawImageScaled_blank)
qed

theorem maskHasSomething_blur_skip_witness:
  "wf_raster (maskCanvas painted_state) \<and> maskHasSomething (maskCanvas painted_state)
   \<and> wf_raster (cv dirty_state) \<and> \<not> maskHasSomething (maskCanvas dirty_state)
   \<and> cv dirty_state = \<lparr>width = 2, height = 1, pixels = [brushPixel, grey 77]\<rparr>
   \<and> cv (drawBase sample_browser dirty_state)
       = \<lparr>width = 2, height = 1, pixels = [grey 10, grey 200]\<rparr>"
proof -
  have h: "wf_raster (cv dirty_state) \<and> \<not> maskHasSomething (maskCanvas dirty_state)"
    by (simp add: dirty_state_def loaded_state_def wf_raster_def not_has_blank)
  have p: "wf_raster (maskCanvas painted_state)" "maskHasSomething (maskCanvas painted_state)"
    by (simp_all add: painted_state_def wf_raster_def maskHasSomething_iff brushPixel_def)
  have c: "cv dirty_state = \<lparr>width = 2, height = 1, pixels = [brushPixel, grey 77]\<rparr>"
    "img dirty_state = sample_image"
    by (simp_all add: dirty_state_def loaded_state_def)
  have s: "map (\<lambda>i. composite sample_browser SourceOver
                      (scaled sample_browser sample_image (width sample_image)
                         (height sample_image) 2 1 ! i) transparent) [0 ..< 2 * 1]
             = [grey 10, grey 200]"
    by (simp add: sample_browser_def sample_image_def pixel_at_def grey_def upt02)
  show ?thesis
    using h p c s
      maskHasSomething_blur_skip [of "maskCanvas painted_state" dirty_state sample_browser]
    by (simp add: drawImageScaled_blank)
qed

subsection \<open>The mask after a load, a reset and an undo\<close>

text \<open>
  C7. After the \<open>onload\<close> handler of an image load, and after a reset (in any state with
  an image loaded, and in any reachable state), the mask is the blank bitmap of the
  canvas's dimensions: same width, same height, every pixel zero, whatever the mask
  held before. And in every reachable state the mask has the canvas's dimensions, with
  a browser whose drawing keeps a bitmap's dimensions.
\<close>

theorem mask_fresh_after_load_and_reset:
  "maskCanvas (snd (loadImage B decoded today st))
     = blank (width (cv (snd (loadImage B decoded today st))))
             (height (cv (snd (loadImage B decoded today st))))
   \<and> (hasImage st \<or> reachable B st \<longrightarrow>
        maskCanvas (snd (reset_click B st))
          = blank (width (cv (snd (reset_click B st)))) (height (cv (snd (reset_click B st)))))
   \<and> (browser_ok B \<and> reachable B st \<longrightarrow>
        width (maskCanvas st) = width (cv st) \<and> height (maskCanvas st) = height (cv st)
        \<and> wf_raster (maskCanvas st))"
proof (intro conjI impI)
  show "maskCanvas (snd (loadImage B decoded today st))
     = blank (width (cv (snd (loadImage B decoded today st))))
             (height (cv (snd (loadImage B decoded today st))))"
    by (rule loadImage_mask)
next
  assume a: "hasImage st \<or> reachable B st"
  show "maskCanvas (snd (reset_click B st))
          = blank (width (cv (snd (reset_click B st)))) (height (cv (snd (reset_click B st))))"
  proof (cases "hasImage st")
    case True
    then show ?thesis by (rule reset_mask)
  next
    case False
    with a have "reachable B st" by simp
    from reachable_no_image [OF this False] False show ?thesis
      by (simp add: reset_click_def)
  qed
next
  assume "browser_ok B \<and> reachable B st"
  then have ok: "canvases_ok st"
    using reachable_canvases_ok by blast
  from ok show "width (maskCanvas st) = width (cv st)" by (simp add: canvases_ok_def)
  from ok show "height (maskCanvas st) = height (cv st)" by (simp add: canvases_ok_def)
  from ok show "wf_raster (maskCanvas st)" by (simp add: canvases_ok_def)
qed

theorem mask_fresh_after_load_and_reset_witness:
  "browser_ok sample_browser \<and> reachable sample_browser events_painted
   \<and> hasImage events_painted \<and> maskHasSomething (maskCanvas events_painted)
   \<and> maskCanvas (snd (reset_click sample_browser events_painted)) = blank 2 1
   \<and> width (maskCanvas events_painted) = width (cv events_painted)"
proof -
  have img: "img events_painted = sample_image"
    unfolding events_painted_def loaded_by_events
    by (simp add: toggleMask_click_def mousedown_def paint_def Let_def drawBase_def
        split: prod.splits)
  have painted: "maskHasSomething (maskCanvas events_painted)"
    by (simp add: painted_by_events maskHasSomething_iff brushPixel_def)
  have dims: "width (cv (snd (reset_click sample_browser events_painted))) = 2"
    "height (cv (snd (reset_click sample_browser events_painted))) = 1"
    using painted_by_events
    by (simp_all add: reset_cv_dims img capped_dims_def MAX_DIM_def sample_image_def)
  show ?thesis
    using sample_browser_ok reachable_events_painted painted_by_events painted dims
      mask_fresh_after_load_and_reset
        [of sample_browser sample_image "ascii ''2026-11-04''" events_painted]
    by simp
qed

text \<open>
  C8. In every reachable state, with a browser whose drawing keeps a bitmap's
  dimensions: after the undo listener the mask has no content and is blank in every
  pixel; and with an image loaded, a render after the undo gives the same canvas as a
  render from any state that has the same image, the same canvas dimensions, the same
  overlay fields and a mask without content, whatever that state's canvas shows.
\<close>

theorem clear_mask_idempotent:
  assumes "browser_ok B" "reachable B st"
  shows "\<not> maskHasSomething (maskCanvas (snd (clearMask_click B st)))
    \<and> maskCanvas (snd (clearMask_click B st))
        = blank (width (maskCanvas st)) (height (maskCanvas st))
    \<and> (hasImage st \<and> hasImage st0 \<and> img st0 = img st \<and> wf_raster (cv st0)
        \<and> width (cv st0) = width (cv st) \<and> height (cv st0) = height (cv st)
        \<and> \<not> maskHasSomething (maskCanvas st0)
        \<and> time_value st0 = time_value st \<and> date_value st0 = date_value st
        \<and> dow_value st0 = dow_value st
       \<longrightarrow> cv (snd (render_click B (snd (clearMask_click B st))))
             = cv (snd (render_click B st0)))"
proof (intro conjI impI)
  have two: "\<not> maskHasSomething (maskCanvas (snd (clearMask_click B st)))
    \<and> maskCanvas (snd (clearMask_click B st))
        = blank (width (maskCanvas st)) (height (maskCanvas st))"
  proof (cases "hasImage st")
    case True
    have "canvases_ok st"
      using assms(2,1) by (rule reachable_canvases_ok)
    then have "wf_raster (maskCanvas st)" "wf_raster (cv st)"
      by (simp_all add: canvases_ok_def)
    with True show ?thesis
      using clear_mask_hasImage [of st B] by (simp add: not_has_blank)
  next
    case False
    from reachable_no_image [OF assms(2) False] False show ?thesis
      by (simp add: clearMask_click_def not_has_blank)
  qed
  from two show "\<not> maskHasSomething (maskCanvas (snd (clearMask_click B st)))" by blast
  from two show "maskCanvas (snd (clearMask_click B st))
        = blank (width (maskCanvas st)) (height (maskCanvas st))" by blast
next
  assume "hasImage st \<and> hasImage st0 \<and> img st0 = img st \<and> wf_raster (cv st0)
        \<and> width (cv st0) = width (cv st) \<and> height (cv st0) = height (cv st)
        \<and> \<not> maskHasSomething (maskCanvas st0)
        \<and> time_value st0 = time_value st \<and> date_value st0 = date_value st
        \<and> dow_value st0 = dow_value st"
  then show "cv (snd (render_click B (snd (clearMask_click B st))))
             = cv (snd (render_click B st0))"
    using render_after_undo [OF assms] by blast
qed

theorem clear_mask_idempotent_witness:
  "browser_ok sample_browser \<and> reachable sample_browser events_painted
   \<and> hasImage events_painted \<and> maskHasSomething (maskCanvas events_painted)
   \<and> cv events_painted = \<lparr>width = 2, height = 1, pixels = [grey 10, grey 10]\<rparr>
   \<and> \<not> maskHasSomething (maskCanvas (snd (clearMask_click sample_browser events_painted)))
   \<and> maskCanvas (snd (clearMask_click sample_browser events_painted)) = blank 2 1
   \<and> hasImage events_loaded \<and> \<not> maskHasSomething (maskCanvas events_loaded)
   \<and> cv (snd (render_click sample_browser events_loaded))
        = \<lparr>width = 2, height = 1, pixels = [brushPixel, grey 200]\<rparr>
   \<and> cv (snd (render_click sample_browser
                 (snd (clearMask_click sample_browser events_painted))))
        = \<lparr>width = 2, height = 1, pixels = [brushPixel, grey 200]\<rparr>"
proof -
  have painted: "maskHasSomething (maskCanvas events_painted)"
    by (simp add: painted_by_events maskHasSomething_iff brushPixel_def)
  have wf0: "wf_raster (cv events_loaded)"
    by (simp add: events_loaded_facts wf_raster_def sample_image_def)
  have d0: "width (cv events_loaded) = 2" "height (cv events_loaded) = 1"
    by (simp_all add: events_loaded_facts sample_image_def)
  have clean: "\<not> maskHasSomething (maskCanvas events_loaded)"
    by (simp add: events_loaded_facts not_has_blank)
  have r0: "cv (snd (render_click sample_browser events_loaded))
              = \<lparr>width = 2, height = 1, pixels = [brushPixel, grey 200]\<rparr>"
    using events_loaded_facts wf0 d0 clean by (intro sample_render) simp_all
  show ?thesis
    using painted painted_by_events painted_canvas events_painted_fields events_loaded_facts
      wf0 d0 clean r0
      clear_mask_idempotent [OF sample_browser_ok reachable_events_painted, of events_loaded]
    by (simp add: sample_browser_ok reachable_events_painted not_has_blank)
qed

subsection \<open>Actions with no image loaded\<close>

text \<open>
  C9, as the code has it. With no image loaded, the render and the download listeners
  leave the state as it is and raise the alert that asks for an image; \<open>paint\<close> leaves
  the state as it is and shows nothing; a mouse-down or touch-start only sets
  \<open>isPainting\<close>, so the canvas, the mask and the overlay fields are unchanged. None of
  them throws.
\<close>

theorem empty_state_actions:
  "\<not> hasImage st \<Longrightarrow>
     render_click B st = (Alert noImageMsg, st)
     \<and> download_click B st = (Alert noImageMsg, st)
     \<and> paint B e st = (NoEffect, st)
     \<and> mousedown B e st = (NoEffect, st\<lparr>isPainting := True\<rparr>)"
  by (simp add: render_click_def download_click_def paint_def mousedown_def)

theorem empty_state_actions_witness:
  "\<not> hasImage initial_state
   \<and> render_click sample_browser initial_state = (Alert noImageMsg, initial_state)
   \<and> download_click sample_browser initial_state = (Alert noImageMsg, initial_state)
   \<and> paint sample_browser sample_event initial_state = (NoEffect, initial_state)"
  using empty_state_actions [of initial_state sample_browser sample_event]
  by (simp add: initial_state_def)

text \<open>
  C9 as written asks for a prompt from the paint stroke too. With the brush
  switched on and the pointer down but no image loaded, \<open>paint\<close> returns without an
  alert.
\<close>

theorem paint_without_image_is_silent:
  "\<not> hasImage (initial_state\<lparr>maskEnabled := True, isPainting := True\<rparr>)
   \<and> fst (paint sample_browser sample_event
            (initial_state\<lparr>maskEnabled := True, isPainting := True\<rparr>)) = NoEffect
   \<and> fst (paint sample_browser sample_event
            (initial_state\<lparr>maskEnabled := True, isPainting := True\<rparr>)) \<noteq> Alert noImageMsg"
  by (simp add: paint_def initial_state_def)

subsection \<open>The fallback texts\<close>

text \<open>
  C5, as the code has it. When an image is loaded and \<open>formatDateDDMMYYYY\<close> gives the
  empty string for the date field, the render draws the fallback date in its place;
  the time drawn is the time field, or the fallback time when that field is empty; the
  weekday drawn is the weekday field, or the fallback weekday when that field is empty.
  The render shows no alert and throws nothing.
\<close>

theorem malformed_date_fallback:
  assumes "hasImage st" "formatDateDDMMYYYY (date_value st) = []"
  shows "cv (snd (render_click B st))
           = fold (rasterize B) (overlayCommands B (drawBase B st)) (cv (drawBase B st))
    \<and> map cmd_text (overlayCommands B (drawBase B st))
        = [Some subText, Some timePart, Some markPart,
           Some (if time_value st = [] then fallbackTime else time_value st), None,
           Some fallbackDate,
           Some (if dow_value st = [] then fallbackDow else dow_value st),
           Some addr2, Some addr1]
    \<and> fst (render_click B st) = NoEffect"
  using assms
  by (simp add: render_click_def drawAllOverlay_def Let_def overlayCommands_texts js_or_def)


theorem malformed_date_fallback_witness:
  "hasImage painted_state \<and> formatDateDDMMYYYY (date_value painted_state) = []
   \<and> map cmd_text (overlayCommands sample_browser (drawBase sample_browser painted_state))
       = [Some subText, Some timePart, Some markPart, Some fallbackTime, None,
          Some fallbackDate, Some fallbackDow, Some addr2, Some addr1]
   \<and> fst (render_click sample_browser painted_state) = NoEffect"
proof -
  have h: "hasImage painted_state" "formatDateDDMMYYYY (date_value painted_state) = []"
    by (simp_all add: painted_state_def loaded_state_def initial_state_def
        formatDateDDMMYYYY_def)
  have "time_value painted_state = fallbackTime"
    by (simp add: painted_state_def loaded_state_def initial_state_def fallbackTime_def)
  moreover have "dow_value painted_state = fallbackDow"
    by (simp add: painted_state_def loaded_state_def initial_state_def fallbackDow_def ascii_def)
  ultimately show ?thesis
    using h malformed_date_fallback [OF h, of sample_browser] by simp
qed

text \<open>
  C5 as written has the whole triple substituted. With the date field empty and
  the time field set to 12:00, the time drawn is 12:00, not the fallback time.
\<close>

theorem malformed_date_keeps_time:
  "formatDateDDMMYYYY (date_value (loaded_state\<lparr>time_value := ascii ''12:00''\<rparr>)) = []
   \<and> map cmd_text (overlayCommands sample_browser
         (drawBase sample_browser (loaded_state\<lparr>time_value := ascii ''12:00''\<rparr>))) ! 3
       = Some (ascii ''12:00'')
   \<and> ascii ''12:00'' \<noteq> fallbackTime"
  by (simp add: overlayCommands_texts js_or_def loaded_state_def initial_state_def
      formatDateDDMMYYYY_def fallbackTime_def ascii_def)

subsection \<open>The left cluster and the reserved span\<close>

text \<open>
  C1, as the code has it. The left cluster's right limit is the smaller of
  \<open>leftX + Math.round(W * 0.60)\<close> and \<open>W - reservedRight\<close>, where \<open>reservedRight\<close> is
  what \<open>drawWatermark\<close> returns. On a canvas whose shorter side is at most 2500, when no
  floor is in force (the cluster is at least 150 wide, the metadata column at least 80
  wide, and each fitter returns a size above its minimum: 10 for the address, 18 for
  the time, 10 for the metadata), the time, the divider, the fitted address line and the
  fitted metadata line end at or before that limit; the second address line and the
  other metadata line are drawn at the font fitted for their sibling, and end
  at or before the limit when they measure no wider than the sibling.
\<close>

theorem left_cluster_within_limit:
  assumes r: "r = snd (drawWatermark B W H)"
    and dims: "min W H \<le> 2500"
    and width_floor: "150 \<le> rightLimit W r - leftX W"
    and meta_floor: "80 \<le> real_of_int (rightLimit W r) - metaX B W H r timeVal"
    and addr_fit: "10 < addrFont B W H r"
    and time_fit: "18 < timeFont B W H r timeVal"
    and meta_fit: "10 < metaFont B W H r timeVal dateText dowText"
    and addr2_le: "measureText B (addrTpl (addrFont B W H r)) addr2
                     \<le> measureText B (addrTpl (addrFont B W H r)) addr1"
    and date_le: "measureText B (metaTpl (metaFont B W H r timeVal dateText dowText)) dateText
                     \<le> measureText B (metaTpl (metaFont B W H r timeVal dateText dowText))
                          (longer dateText dowText)"
    and dow_le: "measureText B (metaTpl (metaFont B W H r timeVal dateText dowText)) dowText
                     \<le> measureText B (metaTpl (metaFont B W H r timeVal dateText dowText))
                          (longer dateText dowText)"
  shows "list_all (\<lambda>c. right_edge (measureText B) c \<le> real_of_int (rightLimit W r))
           (drawLeftCluster B W H r timeVal dateText dowText)
    \<and> rightLimit W r \<le> int W - r
    \<and> rightLimit W r \<le> leftX W + math_round (real W * 0.60)"
proof -
  have mw: "maxWidth W r = rightLimit W r - leftX W"
    using width_floor by (simp add: maxWidth_def)
  have a1: "measureText B (addrTpl (addrFont B W H r)) addr1 \<le> real_of_int (maxWidth W r)"
    using addr_fit unfolding addrFont_def by (rule fit_fits)
  have e_addr1: "real_of_int (leftX W) + measureText B (addrTpl (addrFont B W H r)) addr1
                   \<le> real_of_int (rightLimit W r)"
    using a1 mw by simp
  have e_addr2: "real_of_int (leftX W) + measureText B (addrTpl (addrFont B W H r)) addr2
                   \<le> real_of_int (rightLimit W r)"
    using e_addr1 addr2_le by simp
  have "timeW B W H r timeVal \<le> real_of_int (maxTimeW W r)"
    using time_fit unfolding timeW_def timeFont_def by (rule fit_fits)
  also have "\<dots> \<le> real_of_int (maxWidth W r)"
    using maxTimeW_le [of W r] by simp
  finally have tw: "timeW B W H r timeVal \<le> real_of_int (maxWidth W r)" .
  have e_time: "real_of_int (leftX W) + timeW B W H r timeVal \<le> real_of_int (rightLimit W r)"
    using tw mw by simp
  have "real_of_int (dividerWidth W H) / 2 \<le> real_of_int (gapX W H)"
    using dividerWidth_le [OF dims] by linarith
  then have "lineX B W H r timeVal + real_of_int (dividerWidth W H) / 2 \<le> metaX B W H r timeVal"
    by (simp add: metaX_def)
  then have e_line: "lineX B W H r timeVal + real_of_int (dividerWidth W H) / 2
                       \<le> real_of_int (rightLimit W r)"
    using meta_floor by simp
  have mm: "metaMaxW B W H r timeVal = real_of_int (rightLimit W r) - metaX B W H r timeVal"
    using meta_floor by (simp add: metaMaxW_def)
  have "measureText B (metaTpl (metaFont B W H r timeVal dateText dowText))
          (longer dateText dowText) \<le> metaMaxW B W H r timeVal"
    using meta_fit unfolding metaFont_def by (rule fit_fits)
  then have lg: "metaX B W H r timeVal
                   + measureText B (metaTpl (metaFont B W H r timeVal dateText dowText))
                       (longer dateText dowText) \<le> real_of_int (rightLimit W r)"
    using mm by simp
  have e_date: "metaX B W H r timeVal
                   + measureText B (metaTpl (metaFont B W H r timeVal dateText dowText)) dateText
                 \<le> real_of_int (rightLimit W r)"
    using lg date_le by simp
  have e_dow: "metaX B W H r timeVal
                   + measureText B (metaTpl (metaFont B W H r timeVal dateText dowText)) dowText
                 \<le> real_of_int (rightLimit W r)"
    using lg dow_le by simp
  have "list_all (\<lambda>c. right_edge (measureText B) c \<le> real_of_int (rightLimit W r))
           (drawLeftCluster B W H r timeVal dateText dowText)"
    using e_addr1 e_addr2 e_time e_line e_date e_dow
    by (simp add: drawLeftCluster_def Let_def timeW_def)
  moreover have "rightLimit W r \<le> int W - r"
    by (simp add: rightLimit_def)
  moreover have "rightLimit W r \<le> leftX W + math_round (real W * 0.60)"
    by (simp add: rightLimit_def leftMaxWidth_def)
  ultimately show ?thesis by simp
qed



theorem left_cluster_within_limit_witness:
  "list_all (\<lambda>c. right_edge (measureText sample_browser) c \<le> 756)
           (drawLeftCluster sample_browser 1200 1600 236 fallbackTime fallbackDate fallbackDow)
   \<and> rightLimit 1200 236 = 756"
proof -
  have h1: "(236::int) = snd (drawWatermark sample_browser 1200 1600)"
    by (simp add: drawWatermark_snd layout_defs sample_text_defs fitFontToWidth.simps)
  have h2: "min (1200::nat) 1600 \<le> 2500" by simp
  have rl: "rightLimit 1200 236 = 756"
    by (simp add: layout_defs)
  have h3: "150 \<le> rightLimit 1200 236 - leftX 1200"
    by (simp add: layout_defs)
  have h4: "80 \<le> real_of_int (rightLimit 1200 236)
                   - metaX sample_browser 1200 1600 236 fallbackTime"
    by (simp add: layout_defs sample_text_defs fitFontToWidth.simps)
  have h5: "10 < addrFont sample_browser 1200 1600 236"
    by (simp add: layout_defs sample_text_defs fitFontToWidth.simps)
  have h6: "18 < timeFont sample_browser 1200 1600 236 fallbackTime"
    by (simp add: layout_defs sample_text_defs fitFontToWidth.simps)
  have h7: "10 < metaFont sample_browser 1200 1600 236 fallbackTime fallbackDate fallbackDow"
    by (simp add: layout_defs sample_text_defs fitFontToWidth.simps)
  have h8: "measureText sample_browser (addrTpl (addrFont sample_browser 1200 1600 236)) addr2
              \<le> measureText sample_browser (addrTpl (addrFont sample_browser 1200 1600 236)) addr1"
    by (simp add: layout_defs sample_text_defs fitFontToWidth.simps)
  have h9: "measureText sample_browser
              (metaTpl (metaFont sample_browser 1200 1600 236 fallbackTime fallbackDate fallbackDow))
              fallbackDate
            \<le> measureText sample_browser
              (metaTpl (metaFont sample_browser 1200 1600 236 fallbackTime fallbackDate fallbackDow))
              (longer fallbackDate fallbackDow)"
    by (simp add: layout_defs sample_text_defs fitFontToWidth.simps)
  have h10: "measureText sample_browser
              (metaTpl (metaFont sample_browser 1200 1600 236 fallbackTime fallbackDate fallbackDow))
              fallbackDow
            \<le> measureText sample_browser
              (metaTpl (metaFont sample_browser 1200 1600 236 fallbackTime fallbackDate fallbackDow))
              (longer fallbackDate fallbackDow)"
    by (simp add: layout_defs sample_text_defs fitFontToWidth.simps)
  show ?thesis
    using left_cluster_within_limit [OF h1 h2 h3 h4 h5 h6 h7 h8 h9 h10] rl by simp
qed

text \<open>
  C1 as written is for every canvas. On a canvas of 100 by 100, with text
  half an em per glyph, the watermark reserves 70, so the limit is 30; the cluster's
  width is floored at 150 and the address font at 10, and the first address line, 36
  glyphs from x = 10, ends at 190.
\<close>

theorem left_cluster_overruns_small_canvas:
  "snd (drawWatermark sample_browser 100 100) = 70
   \<and> right_edge (measureText sample_browser)
        (drawLeftCluster sample_browser 100 100 (snd (drawWatermark sample_browser 100 100))
           fallbackTime fallbackDate fallbackDow ! 5) = 190
   \<and> real_of_int (int 100 - snd (drawWatermark sample_browser 100 100))
        < right_edge (measureText sample_browser)
            (drawLeftCluster sample_browser 100 100 (snd (drawWatermark sample_browser 100 100))
               fallbackTime fallbackDate fallbackDow ! 5)"
proof -
  have "snd (drawWatermark sample_browser 100 100) = 70"
    by (simp add: drawWatermark_snd layout_defs sample_text_defs fitFontToWidth.simps)
  then show ?thesis
    by (simp add: drawLeftCluster_def Let_def layout_defs sample_text_defs fitFontToWidth.simps)
qed

subsection \<open>The last admin\<close>

text \<open>
  C10, as the code has it. For every request to the delete route on a table with unique
  usernames: when the row named by the form has role \<open>admin\<close> and the table has at most
  one admin row, the table is unchanged; a table with at least one admin row has at
  least one afterwards, and usernames stay unique. When the route goes on to delete
  and the form's \<open>uid\<close> is the number the session holds as \<open>uid\<close>, which is how the route
  recognises one's own account, the session is cleared and the answer is a redirect to
  the login page.
\<close>

theorem last_admin_protected:
  assumes "unique_usernames db"
  shows "(select_role db (strip (case f_username form of None \<Rightarrow> [] | Some s \<Rightarrow> s)) = Some ''admin''
          \<and> count_admins db \<le> 1
         \<longrightarrow> fst (snd (admin_delete_user py_int form db sess)) = db)
    \<and> (1 \<le> count_admins db
         \<longrightarrow> 1 \<le> count_admins (fst (snd (admin_delete_user py_int form db sess))))
    \<and> unique_usernames (fst (snd (admin_delete_user py_int form db sess)))
    \<and> (s_role sess = Some ''admin'' \<and> s_uid sess = Some n
        \<and> strip (case f_username form of None \<Rightarrow> [] | Some s \<Rightarrow> s) \<noteq> []
        \<and> \<not> (select_role db (strip (case f_username form of None \<Rightarrow> [] | Some s \<Rightarrow> s))
                = Some ''admin'' \<and> count_admins db \<le> 1)
        \<and> f_uid form = Some u \<and> u \<noteq> [] \<and> py_int u = Some n
         \<longrightarrow> admin_delete_user py_int form db sess
               = (Redirect ''/login'',
                  delete_by_username db
                    (strip (case f_username form of None \<Rightarrow> [] | Some s \<Rightarrow> s)),
                  session_clear))"
proof (intro conjI impI)
  let ?name = "strip (case f_username form of None \<Rightarrow> [] | Some s \<Rightarrow> s)"
  let ?db' = "fst (snd (admin_delete_user py_int form db sess))"
  show "?db' = db" if "select_role db ?name = Some ''admin'' \<and> count_admins db \<le> 1"
    using that by (simp add: admin_delete_user_def Let_def split: option.splits)
  show "1 \<le> count_admins ?db'" if one: "1 \<le> count_admins db"
  proof -
    from delete_cases [of py_int form db sess]
    consider "?db' = db"
      | "\<not> (select_role db ?name = Some ''admin'' \<and> count_admins db \<le> 1)"
        "?db' = delete_by_username db ?name"
      by blast
    then show ?thesis
    proof cases
      case 1
      with one show ?thesis by simp
    next
      case 2
      show ?thesis
      proof (cases "select_role db ?name = Some ''admin''")
        case True
        with 2 have "2 \<le> count_admins db" by simp
        with count_admins_delete_one [OF assms, of ?name] 2 show ?thesis by simp
      next
        case False
        with count_admins_delete_other [OF False assms] 2 one show ?thesis by simp
      qed
    qed
  qed
  show "unique_usernames ?db'"
    using delete_cases [of py_int form db sess] assms unique_delete [of db ?name] by auto
  show "admin_delete_user py_int form db sess
          = (Redirect ''/login'', delete_by_username db ?name, session_clear)"
    if "s_role sess = Some ''admin'' \<and> s_uid sess = Some n \<and> ?name \<noteq> []
        \<and> \<not> (select_role db ?name = Some ''admin'' \<and> count_admins db \<le> 1)
        \<and> f_uid form = Some u \<and> u \<noteq> [] \<and> py_int u = Some n"
    using that by (simp add: admin_delete_user_def Let_def)
qed

theorem last_admin_protected_witness:
  "unique_usernames sample_users \<and> unique_usernames (tl (tl sample_users))
   \<and> count_admins (tl (tl sample_users)) = 1
   \<and> fst (snd (admin_delete_user decimal \<lparr>f_username = Some ''root'', f_uid = Some ''3''\<rparr>
                  (tl (tl sample_users)) admin_session)) = tl (tl sample_users)
   \<and> admin_delete_user decimal \<lparr>f_username = Some ''admin'', f_uid = Some ''1''\<rparr>
        sample_users admin_session
       = (Redirect ''/login'', tl sample_users, session_clear)"
proof -
  have h1: "unique_usernames sample_users"
    by (simp add: unique_usernames_def sample_users_def)
  have h2: "unique_usernames (tl (tl sample_users))"
    by (simp add: unique_usernames_def sample_users_def)
  have c: "count_admins (tl (tl sample_users)) = 1" "count_admins sample_users = 2"
    by (simp_all add: count_admins_def sample_users_def)
  have s: "strip ''root'' = ''root''" "strip ''admin'' = ''admin''"
    by (simp_all add: strip_def py_isspace_def)
  have r: "select_role (tl (tl sample_users)) ''root'' = Some ''admin''"
    "select_role sample_users ''admin'' = Some ''admin''"
    by (simp_all add: select_role_def sample_users_def)
  have d: "delete_by_username sample_users ''admin'' = tl sample_users"
    by (simp add: delete_by_username_def sample_users_def)
  have p: "decimal ''1'' = Some 1"
    by (simp add: decimal_def)
  show ?thesis
    using h1 h2 c s r d p
      last_admin_protected [OF h2, where form = "\<lparr>f_username = Some ''root'', f_uid = Some ''3''\<rparr>"
        and py_int = decimal and sess = admin_session and n = 1 and u = "''3''"]
      last_admin_protected [OF h1, where form = "\<lparr>f_username = Some ''admin'', f_uid = Some ''1''\<rparr>"
        and py_int = decimal and sess = admin_session and n = 1 and u = "''1''"]
    by (simp add: admin_session_def)
qed

text \<open>
  C10 as written has the session cleared whenever one's own account is deleted.
  The admin with row id 1, logged in, posts its own username without a \<open>uid\<close> field
  while a second admin exists: the row is deleted and the session is kept.
\<close>

theorem own_account_deleted_session_kept:
  "s_uid admin_session = Some 1
   \<and> map row_id (filter (\<lambda>u. username u = ''admin'') sample_users) = [1]
   \<and> admin_delete_user decimal \<lparr>f_username = Some ''admin'', f_uid = None\<rparr>
        sample_users admin_session
       = (Redirect ''/admin'', tl sample_users, admin_session)
   \<and> admin_session \<noteq> session_clear"
  by (simp add: admin_delete_user_def Let_def strip_def py_isspace_def select_role_def
      count_admins_def delete_by_username_def sample_users_def admin_session_def
      session_clear_def)

end
